theory Spec2Isabelle
  imports Main
begin

section \<open>Strings, locations and object identity\<close>

text \<open>
  A location (\<open>vscode.Uri\<close>) is modelled by its string form, the value of
  \<open>uri.toString()\<close>; only \<open>file\<close> locations without percent-encoded characters
  occur, so \<open>Uri.parse\<close> and \<open>toString\<close> are the identity and \<open>fsPath\<close> is what
  follows \<open>file://\<close>. \<open>Uri.file p\<close> puts \<open>file://\<close> in front of the path, after a
  slash where the path does not begin with one: \<open>Uri.file('')\<close> is \<open>file:///\<close>.
\<close>

type_synonym Uri = string

definition startsWith :: "string \<Rightarrow> string \<Rightarrow> bool" where
  "startsWith s p = (take (length p) s = p)"

definition endsWith :: "string \<Rightarrow> string \<Rightarrow> bool" where
  "endsWith s p = (length p \<le> length s \<and> drop (length s - length p) s = p)"

definition Uri_file :: "string \<Rightarrow> Uri" where
  "Uri_file p = ''file://'' @ (if startsWith p ''/'' then p else ''/'' @ p)"

definition scheme :: "Uri \<Rightarrow> string" where
  "scheme u = takeWhile (\<lambda>c. c \<noteq> CHR '':'') u"

definition fsPath :: "Uri \<Rightarrow> string" where
  "fsPath u = drop (length (scheme u) + 3) u"

text \<open>
  A \<open>Project\<close> is a JavaScript object: \<open>===\<close>, \<open>Array.includes\<close> and
  \<open>Array.indexOf\<close> compare two of them by the object they are, not by their fields.
  The field \<open>ref\<close> is that identity (the address of the object); an object literal
  evaluated twice gives two values that differ in \<open>ref\<close> only.
\<close>

record Project =
  ref :: nat
  id' :: string
  label :: "string option"
  uri :: Uri

record ProjectsChange =
  added :: "Project list option"
  removed :: "Project list option"
  updated :: "Project list option"

datatype error = TypeError string | Error string

definition sameObject :: "Project \<Rightarrow> Project \<Rightarrow> bool" where
  "sameObject p q = (ref p = ref q)"

text \<open>\<open>Array.prototype.indexOf\<close> and \<open>includes\<close> on an array of objects: the first
  position holding the very object, or \<open>-1\<close>; \<open>same\<close> is the identity of the
  objects of the element type.\<close>

fun indexOfFrom :: "('a \<Rightarrow> 'a \<Rightarrow> bool) \<Rightarrow> int \<Rightarrow> 'a list \<Rightarrow> 'a \<Rightarrow> int" where
  "indexOfFrom same i [] p = -1"
| "indexOfFrom same i (x # xs) p = (if same x p then i else indexOfFrom same (i + 1) xs p)"

definition indexOf :: "('a \<Rightarrow> 'a \<Rightarrow> bool) \<Rightarrow> 'a list \<Rightarrow> 'a \<Rightarrow> int" where
  "indexOf same xs p = indexOfFrom same 0 xs p"

definition includes' :: "('a \<Rightarrow> 'a \<Rightarrow> bool) \<Rightarrow> 'a list \<Rightarrow> 'a \<Rightarrow> bool" where
  "includes' same xs p = list_ex (\<lambda>x. same x p) xs"

text \<open>
  \<open>xs.splice(start)\<close> with one argument removes every element from \<open>start\<close> to the
  end and returns the removed ones; a negative \<open>start\<close> counts from the end.
  The pair is (what is left in the array, what was removed).
\<close>

definition spliceStart :: "int \<Rightarrow> 'a list \<Rightarrow> nat" where
  "spliceStart start xs =
     (if start < 0 then nat (max 0 (int (length xs) + start))
      else min (nat start) (length xs))"

definition splice :: "'a list \<Rightarrow> int \<Rightarrow> 'a list \<times> 'a list" where
  "splice xs start = (take (spliceStart start xs) xs, drop (spliceStart start xs) xs)"

section \<open>The folder-based strategy (workspace-folder-strategy.ts)\<close>

record WorkspaceFolder =
  folder_uri :: Uri
  folder_name :: string

record WorkspaceFolderStrategy =
  sortedWorkspaces :: "string list"
  wf_projects :: "Project list"
  wf_fired :: "ProjectsChange list"
  wf_nextRef :: nat

definition WorkspaceFolderStrategy_ID :: string where
  "WorkspaceFolderStrategy_ID = ''workspaceFolders''"

definition newWorkspaceFolderStrategy :: "nat \<Rightarrow> WorkspaceFolderStrategy" where
  "newWorkspaceFolderStrategy r =
     \<lparr>sortedWorkspaces = [], wf_projects = [], wf_fired = [], wf_nextRef = r\<rparr>"

definition toUri :: "WorkspaceFolder \<Rightarrow> string" where
  "toUri folder =
     (let result = folder_uri folder
      in if endsWith result ''/'' then result else result @ ''/'')"

text \<open>
  The host's \<open>vscode.workspace.getWorkspaceFolder\<close> is not code of the repository: it
  returns the workspace folder that contains the location, the innermost one where
  folders nest, and \<open>undefined\<close> where none does. Containment is by whole path
  segments, hence on the strings closed with a slash.
\<close>

definition withSlash :: "string \<Rightarrow> string" where
  "withSlash s = (if endsWith s ''/'' then s else s @ ''/'')"

fun innermost :: "WorkspaceFolder option \<Rightarrow> WorkspaceFolder list \<Rightarrow> WorkspaceFolder option" where
  "innermost best [] = best"
| "innermost None (f # fs) = innermost (Some f) fs"
| "innermost (Some b) (f # fs) =
     (if length (toUri b) < length (toUri f) then innermost (Some f) fs
      else innermost (Some b) fs)"

definition getWorkspaceFolder :: "WorkspaceFolder list \<Rightarrow> Uri \<Rightarrow> WorkspaceFolder option" where
  "getWorkspaceFolder workspaceFolders u =
     innermost None (filter (\<lambda>f. startsWith (withSlash u) (toUri f)) workspaceFolders)"

text \<open>\<open>createProject\<close> builds a new object; \<open>r\<close> is the identity it gets. Reading
  \<open>workspace.uri\<close> of \<open>undefined\<close> (the source asserts with \<open>!\<close> that it is not)
  raises a TypeError.\<close>

definition wf_createProject :: "nat \<Rightarrow> WorkspaceFolder option \<Rightarrow> error + Project" where
  "wf_createProject r workspace =
     (case workspace of
        None \<Rightarrow> Inl (TypeError ''Cannot read properties of undefined'')
      | Some w \<Rightarrow> Inr \<lparr>ref = r, id' = folder_uri w, label = Some (folder_name w),
                       uri = folder_uri w\<rparr>)"

text \<open>\<open>sort((a, b) => a.length - b.length)\<close> is a stable sort on the length.\<close>

definition getSortedWorkspaces ::
  "WorkspaceFolder list \<Rightarrow> WorkspaceFolderStrategy \<Rightarrow> WorkspaceFolderStrategy" where
  "getSortedWorkspaces workspaceFolders s =
     s\<lparr>sortedWorkspaces := sort_key length (map toUri workspaceFolders)\<rparr>"

definition getOuterMostWorkspaceFolder ::
  "WorkspaceFolder list \<Rightarrow> WorkspaceFolderStrategy \<Rightarrow> string \<Rightarrow> WorkspaceFolder option" where
  "getOuterMostWorkspaceFolder workspaceFolders s u =
     (case find (\<lambda>element. startsWith u element) (sortedWorkspaces s) of
        Some element \<Rightarrow> getWorkspaceFolder workspaceFolders element
      | None \<Rightarrow> getWorkspaceFolder workspaceFolders u)"

text \<open>\<open>forEach(workspace => this.projects.push(this.createProject(workspace)))\<close>: one
  push per element, each project a new object. An exception ends the loop; what was
  pushed before it stays, so the state comes back together with the error.\<close>

fun wf_pushProjects ::
  "WorkspaceFolder option list \<Rightarrow> WorkspaceFolderStrategy \<Rightarrow>
   error option \<times> WorkspaceFolderStrategy" where
  "wf_pushProjects [] s = (None, s)"
| "wf_pushProjects (w # ws) s =
     (case wf_createProject (wf_nextRef s) w of
        Inl e \<Rightarrow> (Some e, s)
      | Inr p \<Rightarrow>
          wf_pushProjects ws (s\<lparr>wf_projects := wf_projects s @ [p], wf_nextRef := wf_nextRef s + 1\<rparr>))"

definition wf_initialize ::
  "WorkspaceFolder list \<Rightarrow> WorkspaceFolderStrategy \<Rightarrow> error option \<times> WorkspaceFolderStrategy" where
  "wf_initialize workspaceFolders s =
     (let s1 = getSortedWorkspaces workspaceFolders s
      in case wf_pushProjects
                (map (getOuterMostWorkspaceFolder workspaceFolders s1) (sortedWorkspaces s1)) s1 of
           (Some e, s2) \<Rightarrow> (Some e, s2)
         | (None, s2) \<Rightarrow>
             (None, s2\<lparr>wf_fired := wf_fired s2 @
                      [\<lparr>added = Some (wf_projects s2), removed = None, updated = None\<rparr>]\<rparr>))"

definition wf_resolve :: "WorkspaceFolderStrategy \<Rightarrow> Uri \<Rightarrow> Project option" where
  "wf_resolve s fileUri = find (\<lambda>project. startsWith fileUri (uri project)) (wf_projects s)"

text \<open>The listener of \<open>onDidChangeWorkspaceFolders\<close>: it announces new objects for the
  added and the removed folders and leaves \<open>projects\<close> and \<open>sortedWorkspaces\<close> as they
  are.\<close>

fun wf_createProjects ::
  "nat \<Rightarrow> WorkspaceFolder option list \<Rightarrow> error + (Project list \<times> nat)" where
  "wf_createProjects r [] = Inr ([], r)"
| "wf_createProjects r (w # ws) =
     (case wf_createProject r w of
        Inl e \<Rightarrow> Inl e
      | Inr p \<Rightarrow> (case wf_createProjects (r + 1) ws of
                    Inl e \<Rightarrow> Inl e
                  | Inr (ps, r') \<Rightarrow> Inr (p # ps, r')))"

definition onDidChangeWorkspaceFolders ::
  "WorkspaceFolder list \<Rightarrow> WorkspaceFolder list \<Rightarrow> WorkspaceFolder list \<Rightarrow>
   WorkspaceFolderStrategy \<Rightarrow> error option \<times> WorkspaceFolderStrategy" where
  "onDidChangeWorkspaceFolders workspaceFolders event_added event_removed s =
     (case wf_createProjects (wf_nextRef s)
             (map (\<lambda>w. getOuterMostWorkspaceFolder workspaceFolders s (toUri w)) event_added) of
        Inl e \<Rightarrow> (Some e, s)
      | Inr (a, r1) \<Rightarrow>
          (case wf_createProjects r1
                  (map (\<lambda>w. getOuterMostWorkspaceFolder workspaceFolders s (toUri w)) event_removed) of
             Inl e \<Rightarrow> (Some e, s\<lparr>wf_nextRef := r1\<rparr>)
           | Inr (r, r2) \<Rightarrow>
               (None,
                s\<lparr>wf_fired := wf_fired s @ [\<lparr>added = Some a, removed = Some r, updated = None\<rparr>],
                  wf_nextRef := r2\<rparr>)))"

section \<open>The build-directory strategy (cmake-project-strategy.ts)\<close>

text \<open>
  Node's \<open>path.join\<close> and \<open>path.basename\<close> on paths that are already normal (no
  \<open>.\<close>, \<open>..\<close> or doubled slashes), and the two string primitives of
  \<open>getProjectDirectory\<close>: \<open>lastIndexOf\<close> gives \<open>-1\<close> where the pattern does not
  occur, \<open>substring\<close> clamps both bounds to the string and swaps them if needed.
\<close>

definition path_join :: "string \<Rightarrow> string \<Rightarrow> string" where
  "path_join a b = (if endsWith a ''/'' then a @ b else a @ ''/'' @ b)"

definition basename :: "string \<Rightarrow> string" where
  "basename p =
     rev (takeWhile (\<lambda>c. c \<noteq> CHR ''/'') (dropWhile (\<lambda>c. c = CHR ''/'') (rev p)))"

definition lastIndexOf :: "string \<Rightarrow> string \<Rightarrow> int" where
  "lastIndexOf s p =
     (case filter (\<lambda>i. take (length p) (drop i s) = p) (rev [0..<Suc (length s)]) of
        [] \<Rightarrow> -1
      | i # _ \<Rightarrow> int i)"

definition substring :: "string \<Rightarrow> int \<Rightarrow> int \<Rightarrow> string" where
  "substring s a b =
     (let n = int (length s);
          a' = max 0 (min a n);
          b' = max 0 (min b n)
      in take (nat (max a' b' - min a' b')) (drop (nat (min a' b')) s))"

text \<open>
  What the strategy sees of the host: the workspace folders, the file system
  (\<open>fs.existsSync\<close>) and the result of \<open>glob\<close> for the pattern \<open>**/build\<close> under a
  directory (with \<open>mark\<close>, so that a directory match ends with a slash), which may
  fail.
\<close>

record Host =
  workspaceFolders :: "WorkspaceFolder list"
  existsSync :: "string \<Rightarrow> bool"
  glob :: "string \<Rightarrow> error + string list"

record CmakeProjectStrategy =
  cm_projects :: "Project list"
  cm_fired :: "ProjectsChange list"
  cm_nextRef :: nat

definition CmakeProjectStrategy_ID :: string where
  "CmakeProjectStrategy_ID = ''cmake.build''"

definition newCmakeProjectStrategy :: "nat \<Rightarrow> CmakeProjectStrategy" where
  "newCmakeProjectStrategy r = \<lparr>cm_projects = [], cm_fired = [], cm_nextRef = r\<rparr>"

definition cm_createProject :: "nat \<Rightarrow> Uri \<Rightarrow> Project" where
  "cm_createProject r projectUri =
     \<lparr>ref = r, id' = projectUri, label = Some (basename (fsPath projectUri)), uri = projectUri\<rparr>"

definition getProjectDirectory :: "Host \<Rightarrow> string \<Rightarrow> Uri option" where
  "getProjectDirectory host buildDir =
     (let compilationDb = path_join buildDir ''compile_commands.json''
      in if existsSync host compilationDb
         then Some (Uri_file (substring buildDir 0 (lastIndexOf buildDir ''/build'')))
         else None)"

definition onDidCreate :: "Host \<Rightarrow> Uri \<Rightarrow> CmakeProjectStrategy \<Rightarrow> CmakeProjectStrategy" where
  "onDidCreate host u s =
     (case getProjectDirectory host (fsPath u) of
        Some projectDir \<Rightarrow>
          (let project = cm_createProject (cm_nextRef s) projectDir
           in s\<lparr>cm_projects := cm_projects s @ [project],
                cm_fired := cm_fired s @ [\<lparr>added = Some [project], removed = None, updated = None\<rparr>],
                cm_nextRef := cm_nextRef s + 1\<rparr>)
      | None \<Rightarrow> s)"

text \<open>The listener of \<open>onDidDelete\<close>. The argument of \<open>indexOf\<close> is the object that
  \<open>createProject\<close> has just built.\<close>

definition onDidDelete :: "Host \<Rightarrow> Uri \<Rightarrow> CmakeProjectStrategy \<Rightarrow> CmakeProjectStrategy" where
  "onDidDelete host u s =
     (case getProjectDirectory host (fsPath u) of
        Some projectDir \<Rightarrow>
          (let index = indexOf sameObject (cm_projects s) (cm_createProject (cm_nextRef s) projectDir);
               s1 = s\<lparr>cm_nextRef := cm_nextRef s + 1\<rparr>
           in if index \<ge> 0
              then (let (rest, removed') = splice (cm_projects s1) index
                    in s1\<lparr>cm_projects := rest,
                          cm_fired := cm_fired s1 @
                            [\<lparr>added = None, removed = Some removed', updated = None\<rparr>]\<rparr>)
              else s1)
      | None \<Rightarrow> s)"

fun cm_pushMatches :: "Host \<Rightarrow> string \<Rightarrow> string list \<Rightarrow> CmakeProjectStrategy \<Rightarrow> CmakeProjectStrategy" where
  "cm_pushMatches host cwd [] s = s"
| "cm_pushMatches host cwd (match # matches) s =
     (case getProjectDirectory host (path_join cwd match) of
        Some projectDir \<Rightarrow>
          cm_pushMatches host cwd matches
            (s\<lparr>cm_projects := cm_projects s @ [cm_createProject (cm_nextRef s) projectDir],
               cm_nextRef := cm_nextRef s + 1\<rparr>)
      | None \<Rightarrow> cm_pushMatches host cwd matches s)"

text \<open>\<open>findProjects\<close>: a rejected \<open>glob\<close> ends the loop with what was pushed so far;
  the state comes back in both cases.\<close>

fun findProjects ::
  "Host \<Rightarrow> WorkspaceFolder list \<Rightarrow> CmakeProjectStrategy \<Rightarrow> error option \<times> CmakeProjectStrategy" where
  "findProjects host [] s = (None, s)"
| "findProjects host (folder # folders) s =
     (let cwd = fsPath (folder_uri folder)
      in case glob host cwd of
           Inl err \<Rightarrow> (Some err, s)
         | Inr matches \<Rightarrow>
             (let s1 = cm_pushMatches host cwd matches s
              in findProjects host folders
                   (s1\<lparr>cm_fired := cm_fired s1 @
                        [\<lparr>added = Some (cm_projects s1), removed = None, updated = None\<rparr>]\<rparr>)))"

definition cm_initialize :: "Host \<Rightarrow> CmakeProjectStrategy \<Rightarrow> error option \<times> CmakeProjectStrategy" where
  "cm_initialize host s = findProjects host (workspaceFolders host) s"

definition cm_resolve :: "CmakeProjectStrategy \<Rightarrow> Uri \<Rightarrow> Project option" where
  "cm_resolve s fileUri = find (\<lambda>project. startsWith fileUri (uri project)) (cm_projects s)"

text \<open>Every project of the list is an object built before now: its identity is below
  the next free one. The strategy starts with this and keeps it.\<close>

definition refsBelow :: "CmakeProjectStrategy \<Rightarrow> bool" where
  "refsBelow s = list_all (\<lambda>p. ref p < cm_nextRef s) (cm_projects s)"

section \<open>The Project Service (project-service.ts)\<close>

text \<open>
  A strategy is an object behind the interface \<open>ProjectResolutionStrategy\<close>: one of
  the two strategies above, or one that another extension supplies. Of a supplied
  strategy the service sees its \<open>id\<close>, its \<open>projects\<close> and its \<open>resolve\<close>; what its
  \<open>initialize\<close> discovers is outside the repository, the model counts the calls.
\<close>

record ExternalStrategy =
  ext_id :: string
  ext_projects :: "Project list"
  ext_resolve :: "Uri \<Rightarrow> Project option"
  ext_initialized :: nat

datatype Strategy =
    WorkspaceFolders WorkspaceFolderStrategy
  | Cmake CmakeProjectStrategy
  | External ExternalStrategy

fun strategy_id :: "Strategy \<Rightarrow> string" where
  "strategy_id (WorkspaceFolders s) = WorkspaceFolderStrategy_ID"
| "strategy_id (Cmake s) = CmakeProjectStrategy_ID"
| "strategy_id (External s) = ext_id s"

fun strategy_projects :: "Strategy \<Rightarrow> Project list" where
  "strategy_projects (WorkspaceFolders s) = wf_projects s"
| "strategy_projects (Cmake s) = cm_projects s"
| "strategy_projects (External s) = ext_projects s"

fun strategy_resolve :: "Strategy \<Rightarrow> Uri \<Rightarrow> Project option" where
  "strategy_resolve (WorkspaceFolders s) fileUri = wf_resolve s fileUri"
| "strategy_resolve (Cmake s) fileUri = cm_resolve s fileUri"
| "strategy_resolve (External s) fileUri = ext_resolve s fileUri"

text \<open>\<open>strategy.initialize()\<close>; \<open>r\<close> is the next free object identity, handed to the
  strategy and taken back from it.\<close>

fun strategy_initialize :: "Host \<Rightarrow> nat \<Rightarrow> Strategy \<Rightarrow> error option \<times> Strategy \<times> nat" where
  "strategy_initialize host r (WorkspaceFolders s) =
     (case wf_initialize (workspaceFolders host) (s\<lparr>wf_nextRef := r\<rparr>) of
        (e, s') \<Rightarrow> (e, WorkspaceFolders s', wf_nextRef s'))"
| "strategy_initialize host r (Cmake s) =
     (case cm_initialize host (s\<lparr>cm_nextRef := r\<rparr>) of
        (e, s') \<Rightarrow> (e, Cmake s', cm_nextRef s'))"
| "strategy_initialize host r (External s) =
     (None, External (s\<lparr>ext_initialized := ext_initialized s + 1\<rparr>), r)"

text \<open>The configuration values the service reads through \<open>ProjectConfiguration\<close>:
  \<open>isEnabled()\<close>, \<open>getStrategy()\<close> and \<open>defaultStrategy()\<close>.\<close>

record Configuration =
  cfg_isEnabled :: bool
  cfg_strategy :: string
  cfg_defaultStrategy :: string
  cfg_restartAfterCrash :: bool

text \<open>
  The state of the service. Strategy objects live in \<open>heap\<close>, at their identity;
  the registry \<open>strategies\<close> and \<open>activeStrategy\<close> hold identities, so that
  \<open>newStrategy === this._activeStrategy\<close> and the effect of \<open>initialize()\<close> on a shared
  object are what they are in the source. \<open>onReady\<close> tells whether the promise of
  that name is resolved; the JavaScript \<open>Set\<close> \<open>externalRegisteredStrategies\<close> is a
  list without duplicates. \<open>console\<close>, \<open>warningMessages\<close>, \<open>currentProjectChanged\<close>,
  \<open>forwarded\<close>, \<open>disposedStrategies\<close> and \<open>restarts\<close> record the effects on the
  outside: \<open>console.warn\<close>, \<open>showWarningMessage\<close>, the events fired, the strategies
  whose change events are forwarded, the strategies disposed and the executions of
  \<open>clangd.restart\<close>.
\<close>

record ClangdProjectService =
  heap :: "nat \<rightharpoonup> Strategy"
  strategies :: "string \<rightharpoonup> nat"
  activeStrategy :: "nat option"
  currentProject :: "Project option"
  isEnabled :: bool
  onReady :: bool
  externalRegisteredStrategies :: "string list"
  configuration :: Configuration
  console :: "string list"
  warningMessages :: "string list"
  currentProjectChanged :: "(Project option \<times> Project option) list"
  forwarded :: "nat list"
  disposedStrategies :: "nat list"
  restarts :: nat
  nextRef :: nat

text \<open>The entry \<open>contributes.clangd.projectResolution\<close> of an extension's
  \<open>package.json\<close>, as \<open>getDeclaredStrategies\<close> tells its shapes apart.\<close>

datatype Declaration =
    Undeclared
  | DeclaredString string
  | DeclaredArray "string list"
  | DeclaredOther

fun truthy :: "Declaration \<Rightarrow> bool" where
  "truthy Undeclared = False"
| "truthy (DeclaredString d) = (d \<noteq> [])"
| "truthy (DeclaredArray ds) = True"
| "truthy DeclaredOther = True"

fun getDeclaredStrategies :: "Declaration \<Rightarrow> string list" where
  "getDeclaredStrategies (DeclaredArray declaration) = declaration"
| "getDeclaredStrategies (DeclaredString declaration) = [declaration]"
| "getDeclaredStrategies _ = []"

definition declaredIds :: "Declaration list \<Rightarrow> string list" where
  "declaredIds extensions = concat (map getDeclaredStrategies (filter truthy extensions))"

definition set_add :: "string \<Rightarrow> string list \<Rightarrow> string list" where
  "set_add x xs = (if x \<in> set xs then xs else xs @ [x])"

definition set_delete :: "string \<Rightarrow> string list \<Rightarrow> string list" where
  "set_delete x xs = removeAll x xs"

definition newClangdProjectService ::
  "Configuration \<Rightarrow> Declaration list \<Rightarrow> ClangdProjectService" where
  "newClangdProjectService config extensions =
     \<lparr>heap = Map.empty, strategies = Map.empty, activeStrategy = None, currentProject = None,
      isEnabled = False, onReady = False,
      externalRegisteredStrategies = fold set_add (declaredIds extensions) [],
      configuration = config, console = [], warningMessages = [], currentProjectChanged = [],
      forwarded = [], disposedStrategies = [], restarts = 0, nextRef = 0\<rparr>"

definition resolveReady :: "ClangdProjectService \<Rightarrow> ClangdProjectService" where
  "resolveReady s = s\<lparr>onReady := True\<rparr>"

text \<open>\<open>new\<close>: the object gets the next free identity.\<close>

definition new :: "Strategy \<Rightarrow> ClangdProjectService \<Rightarrow> nat \<times> ClangdProjectService" where
  "new strategy s =
     (nextRef s, s\<lparr>heap := (heap s)(nextRef s \<mapsto> strategy), nextRef := nextRef s + 1\<rparr>)"

text \<open>\<open>registerStrategy\<close> receives a reference \<open>a\<close>; reading \<open>strategy.id\<close> through a
  reference to no object raises a TypeError.\<close>

definition registerStrategy ::
  "nat \<Rightarrow> ClangdProjectService \<Rightarrow> (error + bool) \<times> ClangdProjectService" where
  "registerStrategy a s =
     (case heap s a of
        None \<Rightarrow> (Inl (TypeError ''Cannot read properties of undefined''), s)
      | Some strategy \<Rightarrow>
          if strategies s (strategy_id strategy) = None
          then (let s1 = s\<lparr>strategies := (strategies s)(strategy_id strategy \<mapsto> a)\<rparr>
                in if length (externalRegisteredStrategies s1) > 0
                   then (let s2 = s1\<lparr>externalRegisteredStrategies :=
                                        set_delete (strategy_id strategy)
                                          (externalRegisteredStrategies s1)\<rparr>
                         in if length (externalRegisteredStrategies s2) = 0
                            then (Inr True, resolveReady s2)
                            else (Inr True, s2))
                   else (Inr True, s1))
          else (Inr False,
                s\<lparr>console := console s @
                    [''Could not register project resolution strategy. '' @
                     ''Another registry with the same id is already registered!'']\<rparr>))"

definition initializeAt ::
  "Host \<Rightarrow> nat \<Rightarrow> ClangdProjectService \<Rightarrow> error option \<times> ClangdProjectService" where
  "initializeAt host a s =
     (case heap s a of
        None \<Rightarrow> (Some (TypeError ''Cannot read properties of undefined''), s)
      | Some strategy \<Rightarrow>
          (case strategy_initialize host (nextRef s) strategy of
             (e, strategy', r) \<Rightarrow> (e, s\<lparr>heap := (heap s)(a \<mapsto> strategy'), nextRef := r\<rparr>)))"

definition updateActiveStrategy ::
  "Host \<Rightarrow> bool \<Rightarrow> ClangdProjectService \<Rightarrow> error option \<times> ClangdProjectService" where
  "updateActiveStrategy host validate s =
     (let newStrategyId = cfg_strategy (configuration s)
      in case strategies s newStrategyId of
           Some newStrategy \<Rightarrow>
             if activeStrategy s = Some newStrategy then (None, s)
             else initializeAt host newStrategy
                    (s\<lparr>activeStrategy := Some newStrategy,
                       forwarded := forwarded s @ [newStrategy]\<rparr>)
         | None \<Rightarrow>
             if validate
             then (let strategyNotFoundMsg =
                         ''No project resolution strategy with id '' @ [CHR 0x27] @ newStrategyId @
                         [CHR 0x27] @ '' is registered!'';
                       defaultStrategy = cfg_defaultStrategy (configuration s);
                       resetInfoMsg = ''Reset project resolution strategy to '' @ [CHR 0x27] @
                         defaultStrategy @ [CHR 0x27]
                   in (None,
                       s\<lparr>warningMessages := warningMessages s @ [strategyNotFoundMsg, resetInfoMsg],
                         console := console s @ [strategyNotFoundMsg, resetInfoMsg],
                         activeStrategy := strategies s defaultStrategy\<rparr>))
             else (None, s))"

text \<open>The first two statements of \<open>initialize()\<close>:
  \<open>this.registerStrategy(new WorkspaceFolderStrategy())\<close> and
  \<open>this.registerStrategy(new CmakeProjectStrategy())\<close>.\<close>

definition registerBuiltinStrategies :: "ClangdProjectService \<Rightarrow> ClangdProjectService" where
  "registerBuiltinStrategies s =
     (let (a1, s1) = new (WorkspaceFolders (newWorkspaceFolderStrategy 0)) s;
          s2 = snd (registerStrategy a1 s1);
          (a2, s3) = new (Cmake (newCmakeProjectStrategy 0)) s2
      in snd (registerStrategy a2 s3))"

definition ps_initialize ::
  "Host \<Rightarrow> ClangdProjectService \<Rightarrow> error option \<times> ClangdProjectService" where
  "ps_initialize host s =
     (let s4 = registerBuiltinStrategies s;
          s5 = s4\<lparr>isEnabled := cfg_isEnabled (configuration s4)\<rparr>;
          (e, s6) = (if isEnabled s5 then updateActiveStrategy host False s5 else (None, s5))
      in case e of
           Some err \<Rightarrow> (Some err, s6)
         | None \<Rightarrow>
             if length (externalRegisteredStrategies s6) = 0 then (None, resolveReady s6)
             else (None, s6))"

text \<open>
  The result of an \<open>async\<close> call: \<open>Pending\<close> while it waits at \<open>await this.onReady\<close>
  for a promise that is not resolved, \<open>Threw\<close> for a rejection, \<open>Returned\<close> for its
  value. A call is described from the moment the await lets it through to its end, as
  one step.
\<close>

datatype 'a completion = Pending | Threw error | Returned 'a

definition activeResolve :: "ClangdProjectService \<Rightarrow> Uri \<Rightarrow> Project option" where
  "activeResolve s fileUri =
     (case activeStrategy s of
        None \<Rightarrow> None
      | Some a \<Rightarrow> (case heap s a of None \<Rightarrow> None | Some strategy \<Rightarrow> strategy_resolve strategy fileUri))"

definition differs :: "Project option \<Rightarrow> Project \<Rightarrow> bool" where
  "differs old p = (case old of None \<Rightarrow> True | Some q \<Rightarrow> \<not> sameObject q p)"

definition ps_resolve ::
  "Host \<Rightarrow> Uri \<Rightarrow> bool \<Rightarrow> ClangdProjectService \<Rightarrow>
   Project option completion \<times> ClangdProjectService" where
  "ps_resolve host fileUri updateCurrent s =
     (if \<not> onReady s then (Pending, s)
      else if \<not> isEnabled s then (Returned None, s)
      else (case (if activeStrategy s = None then updateActiveStrategy host True s else (None, s)) of
              (Some err, s1) \<Rightarrow> (Threw err, s1)
            | (None, s1) \<Rightarrow>
                (case activeResolve s1 fileUri of
                   None \<Rightarrow> (Returned None, s1)
                 | Some newProject \<Rightarrow>
                     if updateCurrent
                     then (let oldCurrentProject = currentProject s1;
                               s2 = s1\<lparr>currentProject := Some newProject\<rparr>
                           in if differs oldCurrentProject newProject
                              then (Returned (Some newProject),
                                    s2\<lparr>currentProjectChanged := currentProjectChanged s2 @
                                         [(Some newProject, oldCurrentProject)]\<rparr>)
                              else (Returned (Some newProject), s2))
                     else (Returned (Some newProject), s1))))"

definition resetStrategy :: "ClangdProjectService \<Rightarrow> ClangdProjectService" where
  "resetStrategy s =
     s\<lparr>configuration := (configuration s)\<lparr>cfg_strategy := cfg_defaultStrategy (configuration s)\<rparr>\<rparr>"

text \<open>\<open>unregisterStrategy\<close> takes an id (\<open>Inl\<close>) or a strategy (\<open>Inr\<close>, its
  reference).\<close>

definition unregisterStrategy ::
  "string + nat \<Rightarrow> ClangdProjectService \<Rightarrow> (error + bool) \<times> ClangdProjectService" where
  "unregisterStrategy idOrStrategy s =
     (case (case idOrStrategy of
              Inl i \<Rightarrow> Inr i
            | Inr a \<Rightarrow> (case heap s a of
                         None \<Rightarrow> Inl (TypeError ''Cannot read properties of undefined'')
                       | Some strategy \<Rightarrow> Inr (strategy_id strategy))) of
        Inl e \<Rightarrow> (Inl e, s)
      | Inr i \<Rightarrow>
          (case strategies s i of
             None \<Rightarrow> (Inr False, s)
           | Some toDelete \<Rightarrow>
               (let tid = (case heap s toDelete of None \<Rightarrow> i | Some strategy \<Rightarrow> strategy_id strategy);
                    s1 = s\<lparr>strategies := (strategies s)(tid := None),
                           disposedStrategies := disposedStrategies s @ [toDelete]\<rparr>;
                    activeId = (case activeStrategy s1 of
                                  None \<Rightarrow> None
                                | Some a \<Rightarrow> map_option strategy_id (heap s1 a))
                in if activeId = Some tid then (Inr True, resetStrategy s1) else (Inr True, s1))))"

text \<open>
  \<open>handleConfigurationChange\<close> calls \<open>updateActiveStrategy(true)\<close> without awaiting
  it and then executes \<open>clangd.restart\<close>. At that moment only the part of
  \<open>updateActiveStrategy\<close> before its first suspension has run: the new active strategy
  is set and subscribed to, and of its \<open>initialize()\<close> what runs without waiting. That
  is all of it for the folder-based strategy, and nothing of the discovery for the
  build-directory strategy, which waits for \<open>glob\<close>; a supplied strategy has been
  called. The rest runs later, and a rejection is lost. Where the configured strategy
  is not registered nothing is awaited, and the part is the whole.
\<close>

fun strategy_initialize_sync :: "Host \<Rightarrow> nat \<Rightarrow> Strategy \<Rightarrow> Strategy \<times> nat" where
  "strategy_initialize_sync host r (WorkspaceFolders s) =
     (case wf_initialize (workspaceFolders host) (s\<lparr>wf_nextRef := r\<rparr>) of
        (e, s') \<Rightarrow> (WorkspaceFolders s', wf_nextRef s'))"
| "strategy_initialize_sync host r (Cmake s) = (Cmake s, r)"
| "strategy_initialize_sync host r (External s) =
     (External (s\<lparr>ext_initialized := ext_initialized s + 1\<rparr>), r)"

definition updateActiveStrategy_sync ::
  "Host \<Rightarrow> bool \<Rightarrow> ClangdProjectService \<Rightarrow> ClangdProjectService" where
  "updateActiveStrategy_sync host validate s =
     (case strategies s (cfg_strategy (configuration s)) of
        Some newStrategy \<Rightarrow>
          if activeStrategy s = Some newStrategy then s
          else (let s1 = s\<lparr>activeStrategy := Some newStrategy,
                            forwarded := forwarded s @ [newStrategy]\<rparr>
                in case heap s1 newStrategy of
                     None \<Rightarrow> s1
                   | Some strategy \<Rightarrow>
                       (case strategy_initialize_sync host (nextRef s1) strategy of
                          (strategy', r) \<Rightarrow>
                            s1\<lparr>heap := (heap s1)(newStrategy \<mapsto> strategy'), nextRef := r\<rparr>))
      | None \<Rightarrow> snd (updateActiveStrategy host validate s))"

text \<open>
  \<open>handleConfigurationChange\<close>, effect by effect; the two arguments are
  \<open>event.affectsConfiguration\<close> for the sections \<open>Enabled\<close> and \<open>Strategy\<close>. For a
  change of the strategy the states are: after the part of \<open>updateActiveStrategy\<close>
  that runs at once, after \<open>clangd.restart\<close> has been executed in that state, and
  after the rest of \<open>updateActiveStrategy\<close> has run.
\<close>

definition handleConfigurationChange_steps ::
  "Host \<Rightarrow> bool \<Rightarrow> bool \<Rightarrow> ClangdProjectService \<Rightarrow> ClangdProjectService list" where
  "handleConfigurationChange_steps host affectsEnabled affectsStrategy s =
     (if affectsEnabled
      then (let s1 = s\<lparr>isEnabled := cfg_isEnabled (configuration s)\<rparr>
            in [s1, s1\<lparr>restarts := restarts s1 + 1\<rparr>])
      else if affectsStrategy
      then (let s1 = updateActiveStrategy_sync host True s;
                s2 = s1\<lparr>restarts := restarts s1 + 1\<rparr>;
                s3 = (snd (updateActiveStrategy host True s))\<lparr>restarts := restarts s2\<rparr>
            in [s1, s2, s3])
      else [])"

definition handleConfigurationChange ::
  "Host \<Rightarrow> bool \<Rightarrow> bool \<Rightarrow> ClangdProjectService \<Rightarrow> ClangdProjectService" where
  "handleConfigurationChange host affectsEnabled affectsStrategy s =
     last (s # handleConfigurationChange_steps host affectsEnabled affectsStrategy s)"

section \<open>Runs of the Project Service\<close>

text \<open>
  What can happen to the service after its construction, one call at a time:
  \<open>initialize()\<close>; an extension registering a strategy object it has just built, or
  one it already holds a reference to; \<open>unregisterStrategy\<close>; \<open>resolve\<close> (also from
  the listener of \<open>onDidChangeActiveTextEditor\<close>); a change of the configuration, which
  the host stores before it notifies the service; the listener of
  \<open>vscode.extensions.onDidChange\<close>, with the value of \<open>allExtensionActivated\<close>. Each
  call comes with the host as it is at that moment.
\<close>

datatype Call =
    Initialize
  | Register Strategy
  | RegisterAgain nat
  | Unregister "string + nat"
  | Resolve Uri bool
  | ConfigurationChange Configuration bool bool
  | ExtensionsChange bool

fun call :: "Host \<Rightarrow> Call \<Rightarrow> ClangdProjectService \<Rightarrow> ClangdProjectService" where
  "call host Initialize s = snd (ps_initialize host s)"
| "call host (Register strategy) s = (case new strategy s of (a, s1) \<Rightarrow> snd (registerStrategy a s1))"
| "call host (RegisterAgain a) s = snd (registerStrategy a s)"
| "call host (Unregister idOrStrategy) s = snd (unregisterStrategy idOrStrategy s)"
| "call host (Resolve fileUri updateCurrent) s = snd (ps_resolve host fileUri updateCurrent s)"
| "call host (ConfigurationChange config affectsEnabled affectsStrategy) s =
     handleConfigurationChange host affectsEnabled affectsStrategy (s\<lparr>configuration := config\<rparr>)"
| "call host (ExtensionsChange allExtensionActivated) s =
     (if allExtensionActivated then snd (updateActiveStrategy host True s) else s)"

definition run :: "(Host \<times> Call) list \<Rightarrow> ClangdProjectService \<Rightarrow> ClangdProjectService" where
  "run calls s = fold (\<lambda>(host, c). call host c) calls s"

section \<open>The Routing Context (clangd-context.ts)\<close>

record TextDocument =
  doc_ref :: nat
  doc_uri :: Uri
  languageId :: string
  isClosed :: bool

definition sameDocument :: "TextDocument \<Rightarrow> TextDocument \<Rightarrow> bool" where
  "sameDocument d e = (doc_ref d = doc_ref e)"

record TextDocumentFilter =
  filter_scheme :: "string option"
  filter_language :: "string option"
  filter_pattern :: "string option"

definition clangdDocumentSelector :: "TextDocumentFilter list" where
  "clangdDocumentSelector =
     [\<lparr>filter_scheme = Some ''file'', filter_language = Some ''c'', filter_pattern = None\<rparr>,
      \<lparr>filter_scheme = Some ''file'', filter_language = Some ''cpp'', filter_pattern = None\<rparr>,
      \<lparr>filter_scheme = Some ''file'', filter_language = Some ''cuda-cpp'', filter_pattern = None\<rparr>,
      \<lparr>filter_scheme = Some ''file'', filter_language = Some ''objective-c'', filter_pattern = None\<rparr>,
      \<lparr>filter_scheme = Some ''file'', filter_language = Some ''objective-cpp'',
        filter_pattern = None\<rparr>]"

definition fallbackProjectId :: string where
  "fallbackProjectId = ''none''"

text \<open>\<open>vscode.languages.match\<close> on the selector above, whose filters have a scheme and
  a language and no pattern: a filter matches a document of that scheme and language.\<close>

definition isClangdDocument :: "TextDocument \<Rightarrow> bool" where
  "isClangdDocument document =
     list_ex (\<lambda>f. filter_scheme f = Some (scheme (doc_uri document)) \<and>
                   filter_language f = Some (languageId document))
       clangdDocumentSelector"

text \<open>
  A client is an object of the class \<open>ClangdLanguageClient\<close>: \<open>client_ref\<close> is its
  identity, the other fields are what the context gives it. The calls of \<open>start()\<close>
  and \<open>dispose()\<close> are recorded in the context, by identity and in their order: a
  client is live when it is in \<open>started\<close> and not in \<open>disposed\<close>.
\<close>

record ClangdLanguageClient =
  client_ref :: nat
  documentSelector :: "TextDocumentFilter list"
  outputChannel :: string
  maxRestartCount :: nat
  registeredFeatures :: nat

record ClangdContext =
  projectService :: ClangdProjectService
  clients :: "string \<rightharpoonup> ClangdLanguageClient"
  outputChannels :: "string \<rightharpoonup> string"
  unmatchedDocuments :: "TextDocument list"
  activeProjectOverride :: "Project option"
  started :: "nat list"
  disposed :: "nat list"
  nextClient :: nat

definition newClangdContext :: "ClangdProjectService \<Rightarrow> ClangdContext" where
  "newClangdContext service =
     \<lparr>projectService = service, clients = Map.empty, outputChannels = Map.empty,
      unmatchedDocuments = [], activeProjectOverride = None, started = [], disposed = [],
      nextClient = 0\<rparr>"

text \<open>The getter \<open>client\<close>.\<close>

definition client :: "ClangdContext \<Rightarrow> error + ClangdLanguageClient" where
  "client ctx = Inl (Error ''Invalid access. Context.client is currently not implemented'')"

definition projectKey :: "Project option \<Rightarrow> string" where
  "projectKey project = (case project of Some p \<Rightarrow> id' p | None \<Rightarrow> fallbackProjectId)"

definition getOutputChannel :: "Project option \<Rightarrow> ClangdContext \<Rightarrow> string \<times> ClangdContext" where
  "getOutputChannel project ctx =
     (case outputChannels ctx (projectKey project) of
        Some channel \<Rightarrow> (channel, ctx)
      | None \<Rightarrow>
          (let newChannel =
                 ''clangd '' @
                 (case project of
                    Some p \<Rightarrow> ''['' @ (case label p of Some l \<Rightarrow> l | None \<Rightarrow> id' p) @ '']''
                  | None \<Rightarrow> [])
           in (newChannel,
               ctx\<lparr>outputChannels := (outputChannels ctx)(projectKey project \<mapsto> newChannel)\<rparr>)))"

definition getActiveProject :: "ClangdContext \<Rightarrow> Project option" where
  "getActiveProject ctx =
     (case activeProjectOverride ctx of
        Some p \<Rightarrow> Some p
      | None \<Rightarrow> currentProject (projectService ctx))"

text \<open>\<open>getClientOptions\<close>: the document selector and the output channel of the options
  it returns.\<close>

definition getClientOptions ::
  "Project option \<Rightarrow> ClangdContext \<Rightarrow> (TextDocumentFilter list \<times> string) \<times> ClangdContext" where
  "getClientOptions project ctx =
     (let selector1 =
            (case project of
               Some p \<Rightarrow>
                 map (\<lambda>selector. selector\<lparr>filter_pattern := Some (fsPath (uri p) @ ''/**/*'')\<rparr>)
                   clangdDocumentSelector
             | None \<Rightarrow> []);
          selector2 =
            (if (case project of
                   None \<Rightarrow> True
                 | Some p \<Rightarrow> (case getActiveProject ctx of
                                None \<Rightarrow> False
                              | Some a \<Rightarrow> sameObject a p))
             then selector1 @
                  map (\<lambda>document. \<lparr>filter_scheme = None, filter_language = None,
                                    filter_pattern = Some (fsPath (doc_uri document))\<rparr>)
                    (unmatchedDocuments ctx)
             else selector1);
          (channel, ctx1) = getOutputChannel project ctx
      in ((selector2, channel), ctx1))"

definition restartCount :: "ClangdContext \<Rightarrow> nat" where
  "restartCount ctx =
     (if cfg_restartAfterCrash (configuration (projectService ctx)) then 4 else 0)"

definition createNewClient ::
  "TextDocumentFilter list \<times> string \<Rightarrow> ClangdContext \<Rightarrow> ClangdLanguageClient \<times> ClangdContext" where
  "createNewClient clientOptions ctx =
     (\<lparr>client_ref = nextClient ctx, documentSelector = fst clientOptions,
       outputChannel = snd clientOptions, maxRestartCount = restartCount ctx,
       registeredFeatures = 1\<rparr>,
      ctx\<lparr>nextClient := nextClient ctx + 1\<rparr>)"

definition createClient ::
  "Project option \<Rightarrow> ClangdContext \<Rightarrow> ClangdLanguageClient \<times> ClangdContext" where
  "createClient project ctx =
     (let (clientOptions, ctx1) = getClientOptions project ctx;
          (client0, ctx2) = createNewClient clientOptions ctx1;
          client1 = client0\<lparr>maxRestartCount := restartCount ctx2,
                           registeredFeatures := registeredFeatures client0 + 1\<rparr>;
          ctx3 = ctx2\<lparr>clients := (clients ctx2)(projectKey project \<mapsto> client1)\<rparr>;
          ctx4 = ctx3\<lparr>started := started ctx3 @ [client_ref client1]\<rparr>
      in (client1, ctx4))"

text \<open>\<open>disposeClient\<close>, statement by statement: the states of the context after
  \<open>this.clients.delete(id)\<close> and after \<open>client.dispose()\<close>, in this order; no state
  where there is no client under \<open>id\<close>.\<close>

definition disposeClient_steps :: "string \<Rightarrow> ClangdContext \<Rightarrow> ClangdContext list" where
  "disposeClient_steps i ctx =
     (case clients ctx i of
        None \<Rightarrow> []
      | Some c \<Rightarrow>
          (let ctx1 = ctx\<lparr>clients := (clients ctx)(i := None)\<rparr>;
               ctx2 = ctx1\<lparr>disposed := disposed ctx1 @ [client_ref c]\<rparr>
           in [ctx1, ctx2]))"

definition disposeClient :: "string \<Rightarrow> ClangdContext \<Rightarrow> ClangdContext" where
  "disposeClient i ctx = last (ctx # disposeClient_steps i ctx)"

definition didOpenTextDocument ::
  "Host \<Rightarrow> TextDocument \<Rightarrow> ClangdContext \<Rightarrow> unit completion \<times> ClangdContext" where
  "didOpenTextDocument host document ctx =
     (if \<not> isClangdDocument document then (Returned (), ctx)
      else (case ps_resolve host (doc_uri document) True (projectService ctx) of
              (Pending, service) \<Rightarrow> (Pending, ctx\<lparr>projectService := service\<rparr>)
            | (Threw e, service) \<Rightarrow> (Threw e, ctx\<lparr>projectService := service\<rparr>)
            | (Returned None, service) \<Rightarrow>
                (let ctx1 = ctx\<lparr>projectService := service\<rparr>;
                     activeProject = getActiveProject ctx1;
                     ctx2 = (if \<not> includes' sameDocument (unmatchedDocuments ctx1) document
                             then ctx1\<lparr>unmatchedDocuments := unmatchedDocuments ctx1 @ [document]\<rparr>
                             else ctx1);
                     ctx3 = disposeClient (projectKey activeProject) ctx2
                 in (Returned (), snd (createClient activeProject ctx3)))
            | (Returned (Some project), service) \<Rightarrow>
                (Returned (), snd (createClient (Some project) (ctx\<lparr>projectService := service\<rparr>)))))"

text \<open>\<open>didCloseTextDocument\<close>; \<open>textDocuments\<close> is the host's
  \<open>vscode.workspace.textDocuments\<close> at that moment.\<close>

definition didCloseTextDocument ::
  "Host \<Rightarrow> TextDocument list \<Rightarrow> TextDocument \<Rightarrow> ClangdContext \<Rightarrow>
   unit completion \<times> ClangdContext" where
  "didCloseTextDocument host textDocuments document ctx =
     (if \<not> isClangdDocument document then (Returned (), ctx)
      else (case ps_resolve host (doc_uri document) False (projectService ctx) of
              (Pending, service) \<Rightarrow> (Pending, ctx\<lparr>projectService := service\<rparr>)
            | (Threw e, service) \<Rightarrow> (Threw e, ctx\<lparr>projectService := service\<rparr>)
            | (Returned None, service) \<Rightarrow>
                (let ctx1 = ctx\<lparr>projectService := service\<rparr>;
                     index = indexOf sameDocument (unmatchedDocuments ctx1) document
                 in if index < -1
                    then (Returned (),
                          ctx1\<lparr>unmatchedDocuments := fst (splice (unmatchedDocuments ctx1) index)\<rparr>)
                    else (Returned (), ctx1))
            | (Returned (Some project), service) \<Rightarrow>
                (let ctx1 = ctx\<lparr>projectService := service\<rparr>
                 in if (case activeProjectOverride ctx1 of
                          None \<Rightarrow> False
                        | Some p \<Rightarrow> sameObject project p)
                    then (Returned (), ctx1)
                    else if list_ex (\<lambda>document. startsWith (doc_uri document) (uri project) \<and>
                                                  \<not> isClosed document) textDocuments
                    then (Returned (), ctx1)
                    else (Returned (), disposeClient (id' project) ctx1))))"

text \<open>The setter of \<open>activeProjectOverride\<close>.\<close>

definition set_activeProjectOverride :: "Project option \<Rightarrow> ClangdContext \<Rightarrow> ClangdContext" where
  "set_activeProjectOverride project ctx =
     (let oldActiveProject = activeProjectOverride ctx;
          ctx1 = ctx\<lparr>activeProjectOverride := project\<rparr>;
          ctx2 = (case oldActiveProject of
                    Some old \<Rightarrow> snd (createClient (Some old) (disposeClient (id' old) ctx1))
                  | None \<Rightarrow> ctx1)
      in case project of
           Some p \<Rightarrow> snd (createClient (Some p) (disposeClient (id' p) ctx2))
         | None \<Rightarrow> ctx2)"

text \<open>The listener that \<open>activate\<close> subscribes to \<open>projectService.onProjectsChanged\<close>.
  \<open>this.clients.get(id)?.dispose()\<close> disposes the client and leaves the registry as it
  is.\<close>

definition optIncludes :: "Project list option \<Rightarrow> Project \<Rightarrow> bool" where
  "optIncludes xs p = (case xs of None \<Rightarrow> False | Some ys \<Rightarrow> includes' sameObject ys p)"

definition disposeRegistered :: "string \<Rightarrow> ClangdContext \<Rightarrow> ClangdContext" where
  "disposeRegistered i ctx =
     (case clients ctx i of
        None \<Rightarrow> ctx
      | Some c \<Rightarrow> ctx\<lparr>disposed := disposed ctx @ [client_ref c]\<rparr>)"

definition onProjectsChanged :: "ProjectsChange \<Rightarrow> ClangdContext \<Rightarrow> ClangdContext" where
  "onProjectsChanged change ctx =
     (case activeProjectOverride ctx of
        None \<Rightarrow> ctx
      | Some override \<Rightarrow>
          if optIncludes (removed change) override
          then (disposeRegistered (id' override) ctx)\<lparr>activeProjectOverride := None\<rparr>
          else if optIncludes (updated change) override
          then snd (createClient (Some override) (disposeRegistered (id' override) ctx))
          else ctx)"

section \<open>An example workspace\<close>

text \<open>
  A workspace with the single folder \<open>/a\<close>, multi-project support enabled with the
  folder-based strategy and no extension declaring a strategy; the service after
  \<open>initialize()\<close>, a context on it, and three C and C++ documents, two under \<open>/a\<close>
  and one outside every folder.
\<close>

definition example_config :: Configuration where
  "example_config =
     \<lparr>cfg_isEnabled = True, cfg_strategy = ''workspaceFolders'',
      cfg_defaultStrategy = ''workspaceFolders'', cfg_restartAfterCrash = True\<rparr>"

definition example_host :: Host where
  "example_host =
     \<lparr>workspaceFolders = [\<lparr>folder_uri = ''file:///a'', folder_name = ''a''\<rparr>],
      existsSync = (\<lambda>p. False), glob = (\<lambda>cwd. Inr [])\<rparr>"

definition example_service :: ClangdProjectService where
  "example_service = snd (ps_initialize example_host (newClangdProjectService example_config []))"

definition example_context :: ClangdContext where
  "example_context = newClangdContext example_service"

definition doc_x :: TextDocument where
  "doc_x = \<lparr>doc_ref = 0, doc_uri = ''file:///a/x.cpp'', languageId = ''cpp'', isClosed = False\<rparr>"

definition doc_y :: TextDocument where
  "doc_y = \<lparr>doc_ref = 1, doc_uri = ''file:///a/y.cpp'', languageId = ''cpp'', isClosed = False\<rparr>"

definition doc_out :: TextDocument where
  "doc_out = \<lparr>doc_ref = 2, doc_uri = ''file:///b/z.c'', languageId = ''c'', isClosed = False\<rparr>"

text \<open>A strategy that another extension supplies under the id \<open>i\<close>: it knows no
  project.\<close>

definition example_strategy :: "string \<Rightarrow> Strategy" where
  "example_strategy i =
     External \<lparr>ext_id = i, ext_projects = [], ext_resolve = Map.empty, ext_initialized = 0\<rparr>"

section \<open>Evaluation on concrete inputs\<close>

lemmas wf_defs = wf_initialize_def getSortedWorkspaces_def getOuterMostWorkspaceFolder_def
  getWorkspaceFolder_def wf_createProject_def toUri_def withSlash_def startsWith_def endsWith_def
  newWorkspaceFolderStrategy_def wf_resolve_def

lemmas cm_defs = onDidCreate_def onDidDelete_def getProjectDirectory_def path_join_def
  lastIndexOf_def substring_def cm_createProject_def basename_def fsPath_def scheme_def
  Uri_file_def newCmakeProjectStrategy_def indexOf_def sameObject_def splice_def
  spliceStart_def endsWith_def startsWith_def

section \<open>Array primitives\<close>

lemma indexOfFrom_absent:
  "\<not> list_ex (\<lambda>x. same x p) xs \<Longrightarrow> indexOfFrom same i xs p = -1"
  by (induction xs arbitrary: i) auto

lemma indexOfFrom_lower: "0 \<le> i \<Longrightarrow> -1 \<le> indexOfFrom same i xs p"
  by (induction xs arbitrary: i) auto

lemma indexOf_lower: "\<not> indexOf same xs p < -1"
  using indexOfFrom_lower [of 0 same xs p] by (simp add: indexOf_def)

lemma removeAll_only: "set xs \<subseteq> {x} \<Longrightarrow> removeAll x xs = []"
  by (induction xs) auto

lemma singleton_nonempty: "set xs = {x} \<Longrightarrow> xs \<noteq> []"
  by (cases xs) simp_all

lemma removeAll_Nil_mem: "removeAll x xs = [] \<Longrightarrow> d \<in> set xs \<Longrightarrow> d = x"
  by (induction xs) (auto split: if_splits)

lemma nonempty_mem: "xs \<noteq> [] \<Longrightarrow> \<exists>x. x \<in> set xs"
  by (cases xs) auto

lemma mem_nonempty: "x \<in> set xs \<Longrightarrow> xs \<noteq> []"
  by auto

lemma set_fold_set_add: "set (fold set_add xs ys) = set xs \<union> set ys"
  by (induction xs arbitrary: ys) (auto simp: set_add_def)

section \<open>The folder-based strategy: the projects list and nested folders\<close>

lemma find_Some_mem: "find P xs = Some x \<Longrightarrow> x \<in> set xs"
  by (induction xs) (auto split: if_splits)

lemma startsWith_refl: "startsWith s s"
  by (simp add: startsWith_def)

lemma endsWith_append: "endsWith (s @ p) p"
  by (simp add: endsWith_def)

lemma withSlash_toUri: "withSlash (toUri f) = toUri f"
  by (simp add: withSlash_def toUri_def Let_def endsWith_append)

lemma innermost_Some: "innermost (Some b) fs \<noteq> None"
  by (induction fs arbitrary: b) auto

lemma innermost_nonempty: "fs \<noteq> [] \<Longrightarrow> innermost None fs \<noteq> None"
  by (cases fs) (simp_all add: innermost_Some)

lemma getWorkspaceFolder_member:
  assumes "f \<in> set folders"
  shows "getWorkspaceFolder folders (toUri f) \<noteq> None"
proof -
  have "f \<in> set (filter (\<lambda>g. startsWith (withSlash (toUri f)) (toUri g)) folders)"
    using assms by (simp add: withSlash_toUri startsWith_refl)
  then have "filter (\<lambda>g. startsWith (withSlash (toUri f)) (toUri g)) folders \<noteq> []"
    by (metis empty_iff list.set(1))
  then show ?thesis
    unfolding getWorkspaceFolder_def by (rule innermost_nonempty)
qed

lemma getOuterMostWorkspaceFolder_member:
  assumes "f \<in> set folders"
  shows "getOuterMostWorkspaceFolder folders
           (getSortedWorkspaces folders s) (toUri f) \<noteq> None"
proof (cases "find (\<lambda>element. startsWith (toUri f) element)
                (sort_key length (map toUri folders))")
  case None
  then have "\<not> startsWith (toUri f) (toUri f)"
    using assms by (auto simp: find_None_iff)
  then show ?thesis by (simp add: startsWith_refl)
next
  case (Some element)
  then have "element \<in> set (sort_key length (map toUri folders))"
    by (rule find_Some_mem)
  then obtain g where g: "g \<in> set folders" and e: "element = toUri g" by auto
  from getWorkspaceFolder_member [OF g] Some e show ?thesis
    by (simp add: getOuterMostWorkspaceFolder_def getSortedWorkspaces_def)
qed

text \<open>\<open>initialize()\<close> of the folder-based strategy never throws, and it pushes one
  project for every workspace folder, nested or not.\<close>

lemma wf_pushProjects_defined:
  assumes "\<forall>w \<in> set ws. w \<noteq> None"
  shows "fst (wf_pushProjects ws s) = None \<and>
         length (wf_projects (snd (wf_pushProjects ws s))) = length (wf_projects s) + length ws"
  using assms
proof (induction ws arbitrary: s)
  case Nil
  then show ?case by simp
next
  case (Cons w ws)
  from Cons.prems obtain f where w: "w = Some f" by auto
  from Cons.prems have r: "\<forall>w \<in> set ws. w \<noteq> None" by simp
  show ?case
    using Cons.IH [OF r] w by (simp add: wf_createProject_def)
qed

lemma wf_initialize_one_project_per_folder:
  "fst (wf_initialize folders s) = None \<and>
   length (wf_projects (snd (wf_initialize folders s))) =
     length (wf_projects s) + length folders"
proof -
  let ?s1 = "getSortedWorkspaces folders s"
  let ?ws = "map (getOuterMostWorkspaceFolder folders ?s1) (sortedWorkspaces ?s1)"
  have "\<forall>w \<in> set ?ws. w \<noteq> None"
  proof
    fix w assume "w \<in> set ?ws"
    then obtain u where u: "u \<in> set (sortedWorkspaces ?s1)"
      and w: "w = getOuterMostWorkspaceFolder folders ?s1 u" by auto
    from u obtain f where "f \<in> set folders" and "u = toUri f"
      by (auto simp: getSortedWorkspaces_def)
    with w getOuterMostWorkspaceFolder_member show "w \<noteq> None" by simp
  qed
  from wf_pushProjects_defined [OF this, of ?s1]
  have "fst (wf_pushProjects ?ws ?s1) = None"
    and "length (wf_projects (snd (wf_pushProjects ?ws ?s1))) =
         length (wf_projects s) + length folders"
    by (simp_all add: getSortedWorkspaces_def)
  then show ?thesis
    by (cases "wf_pushProjects ?ws ?s1") (simp add: wf_initialize_def Let_def)
qed

text \<open>
  Claim C4: after \<open>initialize()\<close> the projects list of the folder-based strategy has
  exactly one project per top-level workspace folder, a nested folder adds no entry, and
  no two entries have the same id.

  In the workspace with the folders \<open>/a\<close> and \<open>/a/sub\<close> the code does not do this:
  \<open>initialize()\<close> completes and pushes one project for each of the two folders, both
  the project of \<open>/a\<close>, so the list has two entries with the id \<open>file:///a\<close>.
\<close>

theorem initialize_nested_folder_duplicate:
  "fst (wf_initialize
          [\<lparr>folder_uri = ''file:///a'', folder_name = ''a''\<rparr>,
           \<lparr>folder_uri = ''file:///a/sub'', folder_name = ''sub''\<rparr>]
          (newWorkspaceFolderStrategy 0)) = None \<and>
   map id' (wf_projects (snd (wf_initialize
          [\<lparr>folder_uri = ''file:///a'', folder_name = ''a''\<rparr>,
           \<lparr>folder_uri = ''file:///a/sub'', folder_name = ''sub''\<rparr>]
          (newWorkspaceFolderStrategy 0)))) = [''file:///a'', ''file:///a'']"
  by (simp add: wf_defs)

text \<open>The scenario of the specification: with the folders \<open>/a\<close> and \<open>/a/sub\<close>, the
  location \<open>/a/sub/x.cpp\<close> resolves to the project of \<open>/a\<close>.\<close>

lemma resolve_nested_scenario:
  "map_option id'
     (wf_resolve (snd (wf_initialize
        [\<lparr>folder_uri = ''file:///a'', folder_name = ''a''\<rparr>,
         \<lparr>folder_uri = ''file:///a/sub'', folder_name = ''sub''\<rparr>]
        (newWorkspaceFolderStrategy 0))) ''file:///a/sub/x.cpp'') = Some ''file:///a''"
  by (simp add: wf_defs)

text \<open>
  Claim C5: a file under a nested workspace folder resolves to the project of its
  outermost ancestor folder, the first folder of the length-sorted list whose location
  is a prefix of the file's location; with the folders \<open>/a\<close> and \<open>/a/sub\<close>,
  \<open>/a/sub/x.cpp\<close> resolves to the project of \<open>/a\<close>.

  The scenario holds (\<open>resolve_nested_scenario\<close>), the general statement does not: with
  the folders \<open>/a\<close>, \<open>/ab\<close> and \<open>/ab/sub\<close>, the first entry of the sorted list that is a
  prefix of \<open>/ab/sub/x.cpp\<close> is \<open>file:///ab/\<close>, and \<open>resolve\<close> returns the project of
  \<open>/a\<close>, which is no ancestor of the file: \<open>resolve\<close> compares with the project's
  location as it is, without the closing slash that \<open>getOuterMostWorkspaceFolder\<close>
  adds.
\<close>

theorem resolve_sibling_prefix:
  "find (startsWith ''file:///ab/sub/x.cpp'')
     (sortedWorkspaces (snd (wf_initialize
        [\<lparr>folder_uri = ''file:///a'', folder_name = ''a''\<rparr>,
         \<lparr>folder_uri = ''file:///ab'', folder_name = ''ab''\<rparr>,
         \<lparr>folder_uri = ''file:///ab/sub'', folder_name = ''sub''\<rparr>]
        (newWorkspaceFolderStrategy 0)))) = Some ''file:///ab/'' \<and>
   map_option id'
     (wf_resolve (snd (wf_initialize
        [\<lparr>folder_uri = ''file:///a'', folder_name = ''a''\<rparr>,
         \<lparr>folder_uri = ''file:///ab'', folder_name = ''ab''\<rparr>,
         \<lparr>folder_uri = ''file:///ab/sub'', folder_name = ''sub''\<rparr>]
        (newWorkspaceFolderStrategy 0))) ''file:///ab/sub/x.cpp'') = Some ''file:///a''"
  by (simp add: wf_defs)

section \<open>The build-directory strategy: deletion of a build directory\<close>

text \<open>The strategy keeps \<open>refsBelow\<close>: through \<open>initialize()\<close> and both listeners of
  the watcher.\<close>

lemma refsBelow_new: "refsBelow (newCmakeProjectStrategy r)"
  by (simp add: refsBelow_def newCmakeProjectStrategy_def)

lemma refsBelow_push:
  assumes "refsBelow s"
  shows "refsBelow (s\<lparr>cm_projects := cm_projects s @ [cm_createProject (cm_nextRef s) d],
                       cm_nextRef := cm_nextRef s + 1\<rparr>)"
  using assms by (auto simp: refsBelow_def cm_createProject_def list_all_iff)

lemma refsBelow_fired: "refsBelow (s\<lparr>cm_fired := e\<rparr>) = refsBelow s"
  by (simp add: refsBelow_def)

lemma refsBelow_onDidCreate:
  assumes "refsBelow s"
  shows "refsBelow (onDidCreate host u s)"
  using assms
  by (auto simp: onDidCreate_def Let_def refsBelow_def cm_createProject_def list_all_iff
        split: option.splits)

text \<open>The object that \<open>onDidDelete\<close> looks for is new, so \<open>indexOf\<close> does not find
  it: whatever the file system says, the projects list and the events stay as they
  are.\<close>

lemma onDidDelete_unchanged:
  assumes "refsBelow s"
  shows "cm_projects (onDidDelete host u s) = cm_projects s \<and>
         cm_fired (onDidDelete host u s) = cm_fired s"
proof (cases "getProjectDirectory host (fsPath u)")
  case None
  then show ?thesis by (simp add: onDidDelete_def)
next
  case (Some projectDir)
  have "\<not> list_ex (\<lambda>x. sameObject x (cm_createProject (cm_nextRef s) projectDir)) (cm_projects s)"
    using assms by (auto simp: refsBelow_def list_ex_iff list_all_iff sameObject_def cm_createProject_def)
  then have "indexOf sameObject (cm_projects s) (cm_createProject (cm_nextRef s) projectDir) = -1"
    unfolding indexOf_def by (rule indexOfFrom_absent)
  with Some show ?thesis by (simp add: onDidDelete_def)
qed

lemma refsBelow_onDidDelete:
  assumes "refsBelow s"
  shows "refsBelow (onDidDelete host u s)"
proof -
  from onDidDelete_unchanged [OF assms, of host u]
  have p: "cm_projects (onDidDelete host u s) = cm_projects s" by simp
  have "cm_nextRef s \<le> cm_nextRef (onDidDelete host u s)"
    by (simp add: onDidDelete_def Let_def split_def split: option.splits)
  with assms p show ?thesis by (auto simp: refsBelow_def list_all_iff)
qed

lemma refsBelow_cm_pushMatches:
  assumes "refsBelow s"
  shows "refsBelow (cm_pushMatches host cwd matches s)"
  using assms
proof (induction matches arbitrary: s)
  case Nil
  then show ?case by simp
next
  case (Cons match matches)
  show ?case
  proof (cases "getProjectDirectory host (path_join cwd match)")
    case None
    with Cons show ?thesis by simp
  next
    case (Some d)
    from Cons.IH [OF refsBelow_push [OF Cons.prems, of d]] Some show ?thesis by simp
  qed
qed

lemma refsBelow_findProjects:
  assumes "refsBelow s"
  shows "refsBelow (snd (findProjects host folders s))"
  using assms
proof (induction folders arbitrary: s)
  case Nil
  then show ?case by simp
next
  case (Cons folder folders)
  show ?case
  proof (cases "glob host (fsPath (folder_uri folder))")
    case (Inl err)
    with Cons.prems show ?thesis by (simp add: Let_def)
  next
    case (Inr matches)
    let ?s1 = "cm_pushMatches host (fsPath (folder_uri folder)) matches s"
    have "refsBelow ?s1" using Cons.prems by (rule refsBelow_cm_pushMatches)
    then have "refsBelow (?s1\<lparr>cm_fired := cm_fired ?s1 @
        [\<lparr>added = Some (cm_projects ?s1), removed = None, updated = None\<rparr>]\<rparr>)"
      by (simp add: refsBelow_fired)
    from Cons.IH [OF this] Inr show ?thesis by (simp add: Let_def)
  qed
qed

lemma refsBelow_cm_initialize:
  assumes "refsBelow s"
  shows "refsBelow (snd (cm_initialize host s))"
  unfolding cm_initialize_def using assms by (rule refsBelow_findProjects)

text \<open>
  Claim C6: when the watcher reports the deletion of the build directory of a
  discovered project, exactly that project is removed from the projects list and a
  \<open>ProjectsChange\<close> event with exactly that project as removed is emitted.

  The project of \<open>/proj\<close> is discovered when \<open>/proj/build\<close> is created with a
  compilation database in it. When the deletion of \<open>/proj/build\<close> is reported, the
  strategy is left exactly as it was: the database is gone with the directory, so
  \<open>getProjectDirectory\<close> gives nothing; and were the database still reported, the
  list and the events would still be unchanged, since \<open>indexOf\<close> is asked for a new
  object.
\<close>

theorem onDidDelete_keeps_project:
  "(let before = \<lparr>workspaceFolders = [],
                    existsSync = (\<lambda>p. p = ''/proj/build/compile_commands.json''),
                    glob = (\<lambda>cwd. Inr [])\<rparr>;
        after = \<lparr>workspaceFolders = [], existsSync = (\<lambda>p. False), glob = (\<lambda>cwd. Inr [])\<rparr>;
        s = onDidCreate before ''file:///proj/build'' (newCmakeProjectStrategy 0)
    in map id' (cm_projects s) = [''file:///proj''] \<and>
       onDidDelete after ''file:///proj/build'' s = s \<and>
       cm_projects (onDidDelete before ''file:///proj/build'' s) = cm_projects s \<and>
       cm_fired (onDidDelete before ''file:///proj/build'' s) = cm_fired s)"
  by (simp add: cm_defs Let_def)

section \<open>The Routing Context: the getter \<open>client\<close>\<close>

text \<open>
  Claim C10: every access to the getter \<open>client\<close> of the Routing Context throws the
  error "Invalid access. Context.client is currently not implemented"; in no state of
  the context does reading the property return a client.
\<close>

theorem client_getter_throws:
  "client ctx = Inl (Error ''Invalid access. Context.client is currently not implemented'') \<and>
   (\<forall>c. client ctx \<noteq> Inr c)"
  by (simp add: client_def)

section \<open>The Project Service: registration and the readiness gate\<close>

text \<open>What each operation leaves alone of the gate \<open>onReady\<close>, the pending ids
  \<open>externalRegisteredStrategies\<close> and the registry \<open>strategies\<close>.\<close>

lemma new_frame:
  "onReady (snd (new strategy s)) = onReady s"
  "externalRegisteredStrategies (snd (new strategy s)) = externalRegisteredStrategies s"
  "strategies (snd (new strategy s)) = strategies s"
  by (simp_all add: new_def)

lemma initializeAt_frame:
  "onReady (snd (initializeAt host a s)) = onReady s"
  "externalRegisteredStrategies (snd (initializeAt host a s)) = externalRegisteredStrategies s"
  "strategies (snd (initializeAt host a s)) = strategies s"
  by (simp_all add: initializeAt_def split: option.splits prod.splits)

lemma updateActiveStrategy_frame:
  "onReady (snd (updateActiveStrategy host validate s)) = onReady s"
  "externalRegisteredStrategies (snd (updateActiveStrategy host validate s)) =
     externalRegisteredStrategies s"
  "strategies (snd (updateActiveStrategy host validate s)) = strategies s"
  by (simp_all add: updateActiveStrategy_def Let_def initializeAt_frame split: option.splits)

lemma registerStrategy_gate:
  assumes "onReady s \<longrightarrow> externalRegisteredStrategies s = []"
  shows "onReady (snd (registerStrategy a s)) \<longrightarrow>
         externalRegisteredStrategies (snd (registerStrategy a s)) = []"
  using assms
  by (auto simp: registerStrategy_def Let_def resolveReady_def split: option.splits)

lemma registerStrategy_pending:
  assumes "d \<in> set (externalRegisteredStrategies s)"
  shows "d \<in> set (externalRegisteredStrategies (snd (registerStrategy a s))) \<or>
         strategies (snd (registerStrategy a s)) d \<noteq> None"
  using assms
  by (auto simp: registerStrategy_def Let_def resolveReady_def set_delete_def
        split: option.splits dest: removeAll_Nil_mem)

lemma registerStrategy_keeps:
  assumes "strategies s d \<noteq> None"
  shows "strategies (snd (registerStrategy a s)) d \<noteq> None"
  using assms
  by (auto simp: registerStrategy_def Let_def resolveReady_def split: option.splits)

lemma registerStrategy_no_pending:
  assumes "externalRegisteredStrategies s = []"
  shows "externalRegisteredStrategies (snd (registerStrategy a s)) = []"
  using assms
  by (auto simp: registerStrategy_def Let_def split: option.splits)



lemma registerBuiltinStrategies_gate:
  assumes "onReady s \<longrightarrow> externalRegisteredStrategies s = []"
  shows "onReady (registerBuiltinStrategies s) \<longrightarrow>
         externalRegisteredStrategies (registerBuiltinStrategies s) = []"
proof -
  define s1 where "s1 = snd (new (WorkspaceFolders (newWorkspaceFolderStrategy 0)) s)"
  define s2 where
    "s2 = snd (registerStrategy (fst (new (WorkspaceFolders (newWorkspaceFolderStrategy 0)) s)) s1)"
  define s3 where "s3 = snd (new (Cmake (newCmakeProjectStrategy 0)) s2)"
  have eq: "registerBuiltinStrategies s =
              snd (registerStrategy (fst (new (Cmake (newCmakeProjectStrategy 0)) s2)) s3)"
    by (simp add: registerBuiltinStrategies_def Let_def split_def s1_def s2_def s3_def)
  have g1: "onReady s1 \<longrightarrow> externalRegisteredStrategies s1 = []"
    using assms by (simp add: s1_def new_frame)
  have g2: "onReady s2 \<longrightarrow> externalRegisteredStrategies s2 = []"
    unfolding s2_def using g1 by (rule registerStrategy_gate)
  have g3: "onReady s3 \<longrightarrow> externalRegisteredStrategies s3 = []"
    using g2 by (simp add: s3_def new_frame)
  show ?thesis
    unfolding eq using g3 by (rule registerStrategy_gate)
qed

lemma registerBuiltinStrategies_pending:
  assumes "d \<in> set (externalRegisteredStrategies s)"
  shows "d \<in> set (externalRegisteredStrategies (registerBuiltinStrategies s)) \<or>
         strategies (registerBuiltinStrategies s) d \<noteq> None"
proof -
  define s1 where "s1 = snd (new (WorkspaceFolders (newWorkspaceFolderStrategy 0)) s)"
  define s2 where
    "s2 = snd (registerStrategy (fst (new (WorkspaceFolders (newWorkspaceFolderStrategy 0)) s)) s1)"
  define s3 where "s3 = snd (new (Cmake (newCmakeProjectStrategy 0)) s2)"
  define a2 where "a2 = fst (new (Cmake (newCmakeProjectStrategy 0)) s2)"
  have eq: "registerBuiltinStrategies s = snd (registerStrategy a2 s3)"
    by (simp add: registerBuiltinStrategies_def Let_def split_def s1_def s2_def s3_def a2_def)
  have p1: "d \<in> set (externalRegisteredStrategies s1)"
    using assms by (simp add: s1_def new_frame)
  have p2: "d \<in> set (externalRegisteredStrategies s2) \<or> strategies s2 d \<noteq> None"
    unfolding s2_def using p1 by (rule registerStrategy_pending)
  have p3: "d \<in> set (externalRegisteredStrategies s3) \<or> strategies s3 d \<noteq> None"
    using p2 by (simp add: s3_def new_frame)
  show ?thesis
    unfolding eq
    using p3 registerStrategy_pending [of d s3 a2] registerStrategy_keeps [of s3 d a2]
    by blast
qed

lemma registerBuiltinStrategies_no_pending:
  assumes "externalRegisteredStrategies s = []"
  shows "externalRegisteredStrategies (registerBuiltinStrategies s) = []"
proof -
  define s1 where "s1 = snd (new (WorkspaceFolders (newWorkspaceFolderStrategy 0)) s)"
  define s2 where
    "s2 = snd (registerStrategy (fst (new (WorkspaceFolders (newWorkspaceFolderStrategy 0)) s)) s1)"
  define s3 where "s3 = snd (new (Cmake (newCmakeProjectStrategy 0)) s2)"
  have eq: "registerBuiltinStrategies s =
              snd (registerStrategy (fst (new (Cmake (newCmakeProjectStrategy 0)) s2)) s3)"
    by (simp add: registerBuiltinStrategies_def Let_def split_def s1_def s2_def s3_def)
  have "externalRegisteredStrategies s1 = []"
    using assms by (simp add: s1_def new_frame)
  then have "externalRegisteredStrategies s2 = []"
    unfolding s2_def by (rule registerStrategy_no_pending)
  then have "externalRegisteredStrategies s3 = []"
    by (simp add: s3_def new_frame)
  then show ?thesis
    unfolding eq by (rule registerStrategy_no_pending)
qed

lemma ps_initialize_gate:
  assumes "onReady s \<longrightarrow> externalRegisteredStrategies s = []"
  shows "onReady (snd (ps_initialize host s)) \<longrightarrow>
         externalRegisteredStrategies (snd (ps_initialize host s)) = []"
  using registerBuiltinStrategies_gate [OF assms]
  by (simp add: ps_initialize_def Let_def split_def resolveReady_def updateActiveStrategy_frame
        split: option.splits)

lemma ps_initialize_pending:
  assumes "d \<in> set (externalRegisteredStrategies s)"
  shows "d \<in> set (externalRegisteredStrategies (snd (ps_initialize host s))) \<or>
         strategies (snd (ps_initialize host s)) d \<noteq> None"
  using registerBuiltinStrategies_pending [OF assms]
  by (auto simp: ps_initialize_def Let_def split_def resolveReady_def updateActiveStrategy_frame
        split: option.splits)

lemma ps_initialize_no_pending:
  assumes "externalRegisteredStrategies s = []" and "fst (ps_initialize host s) = None"
  shows "onReady (snd (ps_initialize host s))"
  using registerBuiltinStrategies_no_pending [OF assms(1)] assms(2)
  by (simp add: ps_initialize_def Let_def split_def resolveReady_def updateActiveStrategy_frame
        split: option.splits if_splits)


lemma ps_resolve_frame:
  "onReady (snd (ps_resolve host fileUri updateCurrent s)) = onReady s"
  "externalRegisteredStrategies (snd (ps_resolve host fileUri updateCurrent s)) =
     externalRegisteredStrategies s"
  "strategies (snd (ps_resolve host fileUri updateCurrent s)) = strategies s"
proof -
  define r where "r = updateActiveStrategy host True s"
  have u: "onReady (snd r) = onReady s"
    "externalRegisteredStrategies (snd r) = externalRegisteredStrategies s"
    "strategies (snd r) = strategies s"
    by (simp_all add: r_def updateActiveStrategy_frame)
  have d: "snd (ps_resolve host fileUri updateCurrent s) = s \<or>
           (\<exists>t. snd (ps_resolve host fileUri updateCurrent s) = t \<and> onReady t = onReady s \<and>
                externalRegisteredStrategies t = externalRegisteredStrategies s \<and>
                strategies t = strategies s)"
    using u
    by (cases r)
      (auto simp: ps_resolve_def Let_def r_def [symmetric] split: option.splits prod.splits)
  from d show "onReady (snd (ps_resolve host fileUri updateCurrent s)) = onReady s"
    "externalRegisteredStrategies (snd (ps_resolve host fileUri updateCurrent s)) =
       externalRegisteredStrategies s"
    "strategies (snd (ps_resolve host fileUri updateCurrent s)) = strategies s"
    by auto
qed

lemma unregisterStrategy_frame:
  "onReady (snd (unregisterStrategy idOrStrategy s)) = onReady s"
  "externalRegisteredStrategies (snd (unregisterStrategy idOrStrategy s)) =
     externalRegisteredStrategies s"
  by (simp_all add: unregisterStrategy_def Let_def resetStrategy_def
        split: sum.splits option.splits)

lemma handleConfigurationChange_frame:
  "onReady (handleConfigurationChange host e t s) = onReady s"
  "externalRegisteredStrategies (handleConfigurationChange host e t s) =
     externalRegisteredStrategies s"
  "strategies (handleConfigurationChange host e t s) = strategies s"
  by (simp_all add: handleConfigurationChange_def handleConfigurationChange_steps_def Let_def
        updateActiveStrategy_frame)

lemma call_gate:
  assumes "onReady s \<longrightarrow> externalRegisteredStrategies s = []"
  shows "onReady (call host c s) \<longrightarrow> externalRegisteredStrategies (call host c s) = []"
proof (cases c)
  case Initialize
  with ps_initialize_gate [OF assms] show ?thesis by simp
next
  case (Register strategy)
  have "onReady (snd (new strategy s)) \<longrightarrow> externalRegisteredStrategies (snd (new strategy s)) = []"
    using assms by (simp add: new_frame)
  from registerStrategy_gate [OF this] Register show ?thesis by (simp add: split_def)
next
  case (RegisterAgain a)
  with registerStrategy_gate [OF assms] show ?thesis by simp
next
  case (Unregister x)
  with assms show ?thesis by (simp add: unregisterStrategy_frame)
next
  case (Resolve u b)
  with assms show ?thesis by (simp add: ps_resolve_frame)
next
  case (ConfigurationChange config e t)
  with assms show ?thesis by (simp add: handleConfigurationChange_frame)
next
  case (ExtensionsChange b)
  with assms show ?thesis by (simp add: updateActiveStrategy_frame)
qed

lemma call_pending:
  assumes "d \<in> set (externalRegisteredStrategies s)"
  shows "d \<in> set (externalRegisteredStrategies (call host c s)) \<or> strategies (call host c s) d \<noteq> None"
proof (cases c)
  case Initialize
  with ps_initialize_pending [OF assms] show ?thesis by simp
next
  case (Register strategy)
  have "d \<in> set (externalRegisteredStrategies (snd (new strategy s)))"
    using assms by (simp add: new_frame)
  from registerStrategy_pending [OF this] Register show ?thesis by (simp add: split_def)
next
  case (RegisterAgain a)
  with registerStrategy_pending [OF assms] show ?thesis by simp
next
  case (Unregister x)
  with assms show ?thesis by (simp add: unregisterStrategy_frame)
next
  case (Resolve u b)
  with assms show ?thesis by (simp add: ps_resolve_frame)
next
  case (ConfigurationChange config e t)
  with assms show ?thesis by (simp add: handleConfigurationChange_frame)
next
  case (ExtensionsChange b)
  with assms show ?thesis by (simp add: updateActiveStrategy_frame)
qed

lemma run_snoc: "run (calls @ [(host, c)]) s = call host c (run calls s)"
  by (simp add: run_def)

lemma run_gate:
  assumes "onReady s \<longrightarrow> externalRegisteredStrategies s = []"
  shows "onReady (run calls s) \<longrightarrow> externalRegisteredStrategies (run calls s) = []"
proof (induction calls rule: rev_induct)
  case Nil
  from assms show ?case by (simp add: run_def)
next
  case (snoc x calls)
  obtain host c where x: "x = (host, c)" by (cases x)
  from call_gate [OF snoc.IH, of host c] show ?case by (simp add: x run_snoc)
qed

lemma run_pending:
  assumes "d \<in> set (externalRegisteredStrategies s)"
  shows "d \<in> set (externalRegisteredStrategies (run calls s)) \<or>
         (\<exists>n\<le>length calls. strategies (run (take n calls) s) d \<noteq> None)"
proof (induction calls rule: rev_induct)
  case Nil
  from assms show ?case by (simp add: run_def)
next
  case (snoc x calls)
  obtain host c where x: "x = (host, c)" by (cases x)
  show ?case
  proof (cases "d \<in> set (externalRegisteredStrategies (run calls s))")
    case True
    from call_pending [OF True, of host c]
    have "d \<in> set (externalRegisteredStrategies (run (calls @ [x]) s)) \<or>
          strategies (run (take (length (calls @ [x])) (calls @ [x])) s) d \<noteq> None"
      by (simp add: x run_snoc)
    then show ?thesis by blast
  next
    case False
    with snoc.IH obtain n where n: "n \<le> length calls"
      and r: "strategies (run (take n calls) s) d \<noteq> None" by blast
    from n have "take n (calls @ [x]) = take n calls" by simp
    with n r have "n \<le> length (calls @ [x]) \<and>
        strategies (run (take n (calls @ [x])) s) d \<noteq> None" by simp
    then show ?thesis by blast
  qed
qed

lemma ps_resolve_ready:
  assumes "onReady s"
  shows "fst (ps_resolve host fileUri updateCurrent s) \<noteq> Pending"
  using assms
  by (cases "updateActiveStrategy host True s")
    (auto simp: ps_resolve_def Let_def split: option.splits)

text \<open>The pending ids only get fewer, an id that is still pending has never been a key
  of the registry, and the gate is open as soon as no id is pending, provided one was
  pending at the start.\<close>

lemma registerStrategy_subset:
  assumes "d \<in> set (externalRegisteredStrategies (snd (registerStrategy a s)))"
  shows "d \<in> set (externalRegisteredStrategies s)"
  using assms
  by (auto simp: registerStrategy_def Let_def resolveReady_def set_delete_def
        split: option.splits if_splits)

lemma registerStrategy_unregistered:
  assumes "d \<in> set (externalRegisteredStrategies (snd (registerStrategy a s)))"
    and "strategies s d = None"
  shows "strategies (snd (registerStrategy a s)) d = None"
  using assms
  by (auto simp: registerStrategy_def Let_def resolveReady_def set_delete_def
        split: option.splits if_splits)

lemma registerStrategy_onReady:
  assumes "onReady s"
  shows "onReady (snd (registerStrategy a s))"
  using assms
  by (auto simp: registerStrategy_def Let_def resolveReady_def split: option.splits)

lemma registerStrategy_opens:
  assumes "externalRegisteredStrategies s = [] \<longrightarrow> onReady s"
  shows "externalRegisteredStrategies (snd (registerStrategy a s)) = [] \<longrightarrow>
         onReady (snd (registerStrategy a s))"
  using assms
  by (auto simp: registerStrategy_def Let_def resolveReady_def split: option.splits)

lemma registerStrategy_idle:
  assumes "externalRegisteredStrategies s = []"
  shows "onReady (snd (registerStrategy a s)) = onReady s"
  using assms
  by (auto simp: registerStrategy_def Let_def split: option.splits)


lemma registerBuiltinStrategies_eq:
  "registerBuiltinStrategies s =
     snd (registerStrategy
            (fst (new (Cmake (newCmakeProjectStrategy 0))
                    (snd (registerStrategy
                            (fst (new (WorkspaceFolders (newWorkspaceFolderStrategy 0)) s))
                            (snd (new (WorkspaceFolders (newWorkspaceFolderStrategy 0)) s))))))
            (snd (new (Cmake (newCmakeProjectStrategy 0))
                    (snd (registerStrategy
                            (fst (new (WorkspaceFolders (newWorkspaceFolderStrategy 0)) s))
                            (snd (new (WorkspaceFolders (newWorkspaceFolderStrategy 0)) s)))))))"
  by (simp add: registerBuiltinStrategies_def Let_def split_def)

lemma registerBuiltinStrategies_subset:
  assumes "d \<in> set (externalRegisteredStrategies (registerBuiltinStrategies s))"
  shows "d \<in> set (externalRegisteredStrategies s)"
proof -
  define s1 where "s1 = snd (new (WorkspaceFolders (newWorkspaceFolderStrategy 0)) s)"
  define a1 where "a1 = fst (new (WorkspaceFolders (newWorkspaceFolderStrategy 0)) s)"
  define s2 where "s2 = snd (registerStrategy a1 s1)"
  define s3 where "s3 = snd (new (Cmake (newCmakeProjectStrategy 0)) s2)"
  define a2 where "a2 = fst (new (Cmake (newCmakeProjectStrategy 0)) s2)"
  have eq: "registerBuiltinStrategies s = snd (registerStrategy a2 s3)"
    unfolding registerBuiltinStrategies_eq s1_def a1_def s2_def s3_def a2_def ..
  from assms have "d \<in> set (externalRegisteredStrategies s3)"
    unfolding eq by (rule registerStrategy_subset)
  then have "d \<in> set (externalRegisteredStrategies s2)" by (simp add: s3_def new_frame)
  then have "d \<in> set (externalRegisteredStrategies s1)"
    unfolding s2_def by (rule registerStrategy_subset)
  then show ?thesis by (simp add: s1_def new_frame)
qed

lemma registerBuiltinStrategies_unregistered:
  assumes "d \<in> set (externalRegisteredStrategies (registerBuiltinStrategies s))"
    and "strategies s d = None"
  shows "strategies (registerBuiltinStrategies s) d = None"
proof -
  define s1 where "s1 = snd (new (WorkspaceFolders (newWorkspaceFolderStrategy 0)) s)"
  define a1 where "a1 = fst (new (WorkspaceFolders (newWorkspaceFolderStrategy 0)) s)"
  define s2 where "s2 = snd (registerStrategy a1 s1)"
  define s3 where "s3 = snd (new (Cmake (newCmakeProjectStrategy 0)) s2)"
  define a2 where "a2 = fst (new (Cmake (newCmakeProjectStrategy 0)) s2)"
  have eq: "registerBuiltinStrategies s = snd (registerStrategy a2 s3)"
    unfolding registerBuiltinStrategies_eq s1_def a1_def s2_def s3_def a2_def ..
  from assms(1) have p4: "d \<in> set (externalRegisteredStrategies (snd (registerStrategy a2 s3)))"
    unfolding eq .
  then have "d \<in> set (externalRegisteredStrategies s3)" by (rule registerStrategy_subset)
  then have p2: "d \<in> set (externalRegisteredStrategies (snd (registerStrategy a1 s1)))"
    by (simp add: s3_def s2_def new_frame)
  have "strategies s1 d = None" using assms(2) by (simp add: s1_def new_frame)
  with p2 have "strategies s2 d = None"
    unfolding s2_def by (rule registerStrategy_unregistered)
  then have "strategies s3 d = None" by (simp add: s3_def new_frame)
  with p4 show ?thesis unfolding eq by (rule registerStrategy_unregistered)
qed

lemma registerBuiltinStrategies_onReady:
  assumes "onReady s"
  shows "onReady (registerBuiltinStrategies s)"
proof -
  have "onReady (snd (new (WorkspaceFolders (newWorkspaceFolderStrategy 0)) s))"
    using assms by (simp add: new_frame)
  then have "onReady (snd (new (Cmake (newCmakeProjectStrategy 0))
                    (snd (registerStrategy
                            (fst (new (WorkspaceFolders (newWorkspaceFolderStrategy 0)) s))
                            (snd (new (WorkspaceFolders (newWorkspaceFolderStrategy 0)) s))))))"
    by (simp add: new_frame registerStrategy_onReady)
  then show ?thesis
    unfolding registerBuiltinStrategies_eq by (rule registerStrategy_onReady)
qed

lemma registerBuiltinStrategies_opens:
  assumes "externalRegisteredStrategies s = [] \<longrightarrow> onReady s"
  shows "externalRegisteredStrategies (registerBuiltinStrategies s) = [] \<longrightarrow>
         onReady (registerBuiltinStrategies s)"
proof -
  define s1 where "s1 = snd (new (WorkspaceFolders (newWorkspaceFolderStrategy 0)) s)"
  define a1 where "a1 = fst (new (WorkspaceFolders (newWorkspaceFolderStrategy 0)) s)"
  define s2 where "s2 = snd (registerStrategy a1 s1)"
  define s3 where "s3 = snd (new (Cmake (newCmakeProjectStrategy 0)) s2)"
  define a2 where "a2 = fst (new (Cmake (newCmakeProjectStrategy 0)) s2)"
  have eq: "registerBuiltinStrategies s = snd (registerStrategy a2 s3)"
    unfolding registerBuiltinStrategies_eq s1_def a1_def s2_def s3_def a2_def ..
  have "externalRegisteredStrategies s1 = [] \<longrightarrow> onReady s1"
    using assms by (simp add: s1_def new_frame)
  then have "externalRegisteredStrategies s2 = [] \<longrightarrow> onReady s2"
    unfolding s2_def by (rule registerStrategy_opens)
  then have "externalRegisteredStrategies s3 = [] \<longrightarrow> onReady s3"
    by (simp add: s3_def new_frame)
  then show ?thesis unfolding eq by (rule registerStrategy_opens)
qed

lemma registerBuiltinStrategies_idle:
  assumes "externalRegisteredStrategies s = []"
  shows "onReady (registerBuiltinStrategies s) = onReady s"
proof -
  define s1 where "s1 = snd (new (WorkspaceFolders (newWorkspaceFolderStrategy 0)) s)"
  define a1 where "a1 = fst (new (WorkspaceFolders (newWorkspaceFolderStrategy 0)) s)"
  define s2 where "s2 = snd (registerStrategy a1 s1)"
  define s3 where "s3 = snd (new (Cmake (newCmakeProjectStrategy 0)) s2)"
  define a2 where "a2 = fst (new (Cmake (newCmakeProjectStrategy 0)) s2)"
  have eq: "registerBuiltinStrategies s = snd (registerStrategy a2 s3)"
    unfolding registerBuiltinStrategies_eq s1_def a1_def s2_def s3_def a2_def ..
  have e1: "externalRegisteredStrategies s1 = []" using assms by (simp add: s1_def new_frame)
  then have e2: "externalRegisteredStrategies s2 = []"
    unfolding s2_def by (rule registerStrategy_no_pending)
  then have e3: "externalRegisteredStrategies s3 = []" by (simp add: s3_def new_frame)
  have "onReady (snd (registerStrategy a2 s3)) = onReady s3"
    using e3 by (rule registerStrategy_idle)
  also have "\<dots> = onReady s2" by (simp add: s3_def new_frame)
  also have "\<dots> = onReady s1" unfolding s2_def using e1 by (rule registerStrategy_idle)
  also have "\<dots> = onReady s" by (simp add: s1_def new_frame)
  finally show ?thesis unfolding eq .
qed

lemma ps_initialize_subset:
  assumes "d \<in> set (externalRegisteredStrategies (snd (ps_initialize host s)))"
  shows "d \<in> set (externalRegisteredStrategies s)"
proof -
  from assms have "d \<in> set (externalRegisteredStrategies (registerBuiltinStrategies s))"
    by (simp add: ps_initialize_def Let_def split_def resolveReady_def updateActiveStrategy_frame
          split: option.splits if_splits)
  then show ?thesis by (rule registerBuiltinStrategies_subset)
qed

lemma ps_initialize_strategies:
  "strategies (snd (ps_initialize host s)) = strategies (registerBuiltinStrategies s)"
  by (simp add: ps_initialize_def Let_def split_def resolveReady_def updateActiveStrategy_frame
        split: option.splits)

lemma ps_initialize_externalRegisteredStrategies:
  "externalRegisteredStrategies (snd (ps_initialize host s)) =
     externalRegisteredStrategies (registerBuiltinStrategies s)"
  by (simp add: ps_initialize_def Let_def split_def resolveReady_def updateActiveStrategy_frame
        split: option.splits)

lemma ps_initialize_onReady:
  "onReady (snd (ps_initialize host s)) =
     (onReady (registerBuiltinStrategies s) \<or>
      (fst (ps_initialize host s) = None \<and>
       externalRegisteredStrategies (registerBuiltinStrategies s) = []))"
  by (auto simp: ps_initialize_def Let_def split_def resolveReady_def updateActiveStrategy_frame
        split: option.splits)


lemma unregisterStrategy_unregistered:
  assumes "strategies s d = None"
  shows "strategies (snd (unregisterStrategy idOrStrategy s)) d = None"
  using assms
  by (simp add: unregisterStrategy_def Let_def resetStrategy_def
        split: sum.splits option.splits)

lemma call_subset:
  assumes "d \<in> set (externalRegisteredStrategies (call host c s))"
  shows "d \<in> set (externalRegisteredStrategies s)"
proof (cases c)
  case Initialize
  with assms ps_initialize_subset show ?thesis by simp
next
  case (Register strategy)
  with assms have "d \<in> set (externalRegisteredStrategies
      (snd (registerStrategy (fst (new strategy s)) (snd (new strategy s)))))"
    by (simp add: split_def)
  then have "d \<in> set (externalRegisteredStrategies (snd (new strategy s)))"
    by (rule registerStrategy_subset)
  then show ?thesis by (simp add: new_frame)
next
  case (RegisterAgain a)
  with assms registerStrategy_subset show ?thesis by simp
next
  case (Unregister x)
  with assms show ?thesis by (simp add: unregisterStrategy_frame)
next
  case (Resolve u b)
  with assms show ?thesis by (simp add: ps_resolve_frame)
next
  case (ConfigurationChange config e t)
  with assms show ?thesis by (simp add: handleConfigurationChange_frame)
next
  case (ExtensionsChange b)
  with assms show ?thesis by (simp add: updateActiveStrategy_frame split: if_splits)
qed

lemma call_unregistered:
  assumes "d \<in> set (externalRegisteredStrategies (call host c s))"
    and "strategies s d = None"
  shows "strategies (call host c s) d = None"
proof (cases c)
  case Initialize
  with assms have "d \<in> set (externalRegisteredStrategies (registerBuiltinStrategies s))"
    by (simp add: ps_initialize_externalRegisteredStrategies)
  from registerBuiltinStrategies_unregistered [OF this assms(2)] Initialize
  show ?thesis by (simp add: ps_initialize_strategies)
next
  case (Register strategy)
  with assms(1) have p: "d \<in> set (externalRegisteredStrategies
      (snd (registerStrategy (fst (new strategy s)) (snd (new strategy s)))))"
    by (simp add: split_def)
  have "strategies (snd (new strategy s)) d = None" using assms(2) by (simp add: new_frame)
  from registerStrategy_unregistered [OF p this] Register show ?thesis by (simp add: split_def)
next
  case (RegisterAgain a)
  with assms registerStrategy_unregistered show ?thesis by simp
next
  case (Unregister x)
  with assms(2) show ?thesis by (simp add: unregisterStrategy_unregistered)
next
  case (Resolve u b)
  with assms(2) show ?thesis by (simp add: ps_resolve_frame)
next
  case (ConfigurationChange config e t)
  with assms(2) show ?thesis by (simp add: handleConfigurationChange_frame)
next
  case (ExtensionsChange b)
  with assms(2) show ?thesis by (simp add: updateActiveStrategy_frame)
qed

lemma call_opens:
  assumes "externalRegisteredStrategies s = [] \<longrightarrow> onReady s"
  shows "externalRegisteredStrategies (call host c s) = [] \<longrightarrow> onReady (call host c s)"
proof (cases c)
  case Initialize
  from registerBuiltinStrategies_opens [OF assms] Initialize show ?thesis
    by (simp add: ps_initialize_externalRegisteredStrategies ps_initialize_onReady)
next
  case (Register strategy)
  have "externalRegisteredStrategies (snd (new strategy s)) = [] \<longrightarrow> onReady (snd (new strategy s))"
    using assms by (simp add: new_frame)
  from registerStrategy_opens [OF this] Register show ?thesis by (simp add: split_def)
next
  case (RegisterAgain a)
  with registerStrategy_opens [OF assms] show ?thesis by simp
next
  case (Unregister x)
  with assms show ?thesis by (simp add: unregisterStrategy_frame)
next
  case (Resolve u b)
  with assms show ?thesis by (simp add: ps_resolve_frame)
next
  case (ConfigurationChange config e t)
  with assms show ?thesis by (simp add: handleConfigurationChange_frame)
next
  case (ExtensionsChange b)
  with assms show ?thesis by (simp add: updateActiveStrategy_frame)
qed

text \<open>With no pending id, only \<open>initialize()\<close> completing opens the gate.\<close>

lemma call_idle:
  assumes "externalRegisteredStrategies s = []"
  shows "externalRegisteredStrategies (call host c s) = [] \<and>
         onReady (call host c s) =
           (onReady s \<or> (c = Initialize \<and> fst (ps_initialize host s) = None))"
proof (cases c)
  case Initialize
  from registerBuiltinStrategies_no_pending [OF assms] registerBuiltinStrategies_idle [OF assms]
    Initialize
  show ?thesis by (simp add: ps_initialize_externalRegisteredStrategies ps_initialize_onReady)
next
  case (Register strategy)
  have e: "externalRegisteredStrategies (snd (new strategy s)) = []"
    using assms by (simp add: new_frame)
  from registerStrategy_no_pending [OF e] registerStrategy_idle [OF e] Register
  show ?thesis by (simp add: split_def new_frame)
next
  case (RegisterAgain a)
  with registerStrategy_no_pending [OF assms] registerStrategy_idle [OF assms]
  show ?thesis by simp
next
  case (Unregister x)
  with assms show ?thesis by (simp add: unregisterStrategy_frame)
next
  case (Resolve u b)
  with assms show ?thesis by (simp add: ps_resolve_frame)
next
  case (ConfigurationChange config e t)
  with assms show ?thesis by (simp add: handleConfigurationChange_frame)
next
  case (ExtensionsChange b)
  with assms show ?thesis by (simp add: updateActiveStrategy_frame)
qed

lemma run_subset:
  assumes "d \<in> set (externalRegisteredStrategies (run calls s))"
  shows "d \<in> set (externalRegisteredStrategies s)"
  using assms
proof (induction calls rule: rev_induct)
  case Nil
  then show ?case by (simp add: run_def)
next
  case (snoc x calls)
  obtain host c where x: "x = (host, c)" by (cases x)
  from snoc.prems have "d \<in> set (externalRegisteredStrategies (call host c (run calls s)))"
    by (simp add: x run_snoc)
  then have "d \<in> set (externalRegisteredStrategies (run calls s))" by (rule call_subset)
  then show ?case by (rule snoc.IH)
qed

lemma run_unregistered:
  assumes "strategies s d = None"
    and "d \<in> set (externalRegisteredStrategies (run calls s))"
  shows "\<forall>n\<le>length calls. strategies (run (take n calls) s) d = None"
  using assms(2)
proof (induction calls rule: rev_induct)
  case Nil
  from assms(1) show ?case by (simp add: run_def)
next
  case (snoc x calls)
  obtain host c where x: "x = (host, c)" by (cases x)
  from snoc.prems have p: "d \<in> set (externalRegisteredStrategies (call host c (run calls s)))"
    by (simp add: x run_snoc)
  then have "d \<in> set (externalRegisteredStrategies (run calls s))" by (rule call_subset)
  then have ih: "\<forall>n\<le>length calls. strategies (run (take n calls) s) d = None" by (rule snoc.IH)
  from ih have "strategies (run (take (length calls) calls) s) d = None" by blast
  then have "strategies (run calls s) d = None" by simp
  with p have last: "strategies (run (calls @ [x]) s) d = None"
    by (simp add: x run_snoc call_unregistered)
  show ?case
  proof (intro allI impI)
    fix n assume "n \<le> length (calls @ [x])"
    then consider "n \<le> length calls" | "n = length (calls @ [x])" by fastforce
    then show "strategies (run (take n (calls @ [x])) s) d = None"
    proof cases
      case 1
      with ih show ?thesis by simp
    next
      case 2
      with last show ?thesis by simp
    qed
  qed
qed

lemma run_opens:
  assumes "externalRegisteredStrategies s = [] \<longrightarrow> onReady s"
  shows "externalRegisteredStrategies (run calls s) = [] \<longrightarrow> onReady (run calls s)"
proof (induction calls rule: rev_induct)
  case Nil
  from assms show ?case by (simp add: run_def)
next
  case (snoc x calls)
  obtain host c where x: "x = (host, c)" by (cases x)
  from call_opens [OF snoc.IH, of host c] show ?case by (simp add: x run_snoc)
qed

lemma run_idle:
  assumes "externalRegisteredStrategies s = []" and "\<not> onReady s"
  shows "externalRegisteredStrategies (run calls s) = [] \<and>
         onReady (run calls s) =
           (\<exists>n<length calls. \<exists>host. calls ! n = (host, Initialize) \<and>
              fst (ps_initialize host (run (take n calls) s)) = None)"
proof (induction calls rule: rev_induct)
  case Nil
  from assms show ?case by (simp add: run_def)
next
  case (snoc x calls)
  obtain host c where x: "x = (host, c)" by (cases x)
  let ?P = "\<lambda>cs n. \<exists>host. cs ! n = (host, Initialize) \<and>
              fst (ps_initialize host (run (take n cs) s)) = None"
  from snoc.IH have e: "externalRegisteredStrategies (run calls s) = []"
    and r: "onReady (run calls s) = (\<exists>n<length calls. ?P calls n)" by simp_all
  from call_idle [OF e, of host c]
  have e': "externalRegisteredStrategies (run (calls @ [x]) s) = []"
    and r': "onReady (run (calls @ [x]) s) =
       (onReady (run calls s) \<or> (c = Initialize \<and> fst (ps_initialize host (run calls s)) = None))"
    by (simp_all add: x run_snoc)
  have old: "?P (calls @ [x]) n = ?P calls n" if "n < length calls" for n
    using that by (simp add: nth_append)
  have new: "?P (calls @ [x]) (length calls) =
      (c = Initialize \<and> fst (ps_initialize host (run calls s)) = None)"
    by (auto simp: x)
  have "(\<exists>n<length (calls @ [x]). ?P (calls @ [x]) n) =
        ((\<exists>n<length calls. ?P calls n) \<or> ?P (calls @ [x]) (length calls))"
  proof
    assume "\<exists>n<length (calls @ [x]). ?P (calls @ [x]) n"
    then obtain n where n: "n < length (calls @ [x])" and p: "?P (calls @ [x]) n" by blast
    show "(\<exists>n<length calls. ?P calls n) \<or> ?P (calls @ [x]) (length calls)"
    proof (cases "n < length calls")
      case True
      with p old have "?P calls n" by simp
      with True show ?thesis by blast
    next
      case False
      with n have "n = length calls" by simp
      with p show ?thesis by simp
    qed
  next
    assume "(\<exists>n<length calls. ?P calls n) \<or> ?P (calls @ [x]) (length calls)"
    then show "\<exists>n<length (calls @ [x]). ?P (calls @ [x]) n"
    proof
      assume "\<exists>n<length calls. ?P calls n"
      then obtain n where n: "n < length calls" and p: "?P calls n" by blast
      from n p old have "?P (calls @ [x]) n" by simp
      moreover from n have "n < length (calls @ [x])" by simp
      ultimately show ?thesis by blast
    next
      assume "?P (calls @ [x]) (length calls)"
      moreover have "length calls < length (calls @ [x])" by simp
      ultimately show ?thesis by blast
    qed
  qed
  with e' r' r new show ?case by simp
qed

text \<open>A new service: the gate is closed, the registry is empty and the declared ids are
  pending. \<open>resolve\<close> is pending exactly while the gate is closed.\<close>

lemma new_service:
  "\<not> onReady (newClangdProjectService config extensions)"
  "strategies (newClangdProjectService config extensions) d = None"
  "set (externalRegisteredStrategies (newClangdProjectService config extensions)) =
     set (declaredIds extensions)"
  by (simp_all add: newClangdProjectService_def set_fold_set_add)

lemma ps_resolve_pending:
  assumes "\<not> onReady s"
  shows "ps_resolve host fileUri updateCurrent s = (Pending, s)"
  using assms by (simp add: ps_resolve_def)

lemma ps_resolve_gate:
  "(fst (ps_resolve host fileUri updateCurrent s) \<noteq> Pending) = onReady s"
proof (cases "onReady s")
  case True
  with ps_resolve_ready [of s host fileUri updateCurrent] show ?thesis by simp
next
  case False
  with ps_resolve_pending [of s host fileUri updateCurrent] show ?thesis by simp
qed


lemma run_declared_forward:
  assumes ready: "onReady (run calls (newClangdProjectService config extensions))"
    and d: "d \<in> set (declaredIds extensions)"
  shows "\<exists>n\<le>length calls.
           strategies (run (take n calls) (newClangdProjectService config extensions)) d \<noteq> None"
proof -
  let ?s0 = "newClangdProjectService config extensions"
  have "onReady ?s0 \<longrightarrow> externalRegisteredStrategies ?s0 = []"
    by (simp add: new_service(1))
  from run_gate [OF this, of calls] ready
  have empty: "externalRegisteredStrategies (run calls ?s0) = []" by blast
  from d have "d \<in> set (externalRegisteredStrategies ?s0)"
    unfolding new_service(3) .
  from run_pending [OF this, of calls] empty show ?thesis by simp
qed


lemma run_declared_backward:
  assumes ne: "declaredIds extensions \<noteq> []"
    and all: "\<forall>d \<in> set (declaredIds extensions).
         \<exists>n\<le>length calls.
           strategies (run (take n calls) (newClangdProjectService config extensions)) d \<noteq> None"
  shows "onReady (run calls (newClangdProjectService config extensions))"
proof -
  let ?s0 = "newClangdProjectService config extensions"
  have empty: "externalRegisteredStrategies (run calls ?s0) = []"
  proof (rule ccontr)
    assume "externalRegisteredStrategies (run calls ?s0) \<noteq> []"
    then have "\<exists>d. d \<in> set (externalRegisteredStrategies (run calls ?s0))"
      by (rule nonempty_mem)
    then obtain d where d: "d \<in> set (externalRegisteredStrategies (run calls ?s0))" ..
    then have "d \<in> set (externalRegisteredStrategies ?s0)" by (rule run_subset)
    then have "d \<in> set (declaredIds extensions)" unfolding new_service(3) .
    with all have "\<exists>n\<le>length calls. strategies (run (take n calls) ?s0) d \<noteq> None"
      by (rule bspec)
    then obtain n where n: "n \<le> length calls"
      and r: "strategies (run (take n calls) ?s0) d \<noteq> None" by (elim exE conjE)
    from run_unregistered [OF new_service(2) d]
    have "\<forall>n\<le>length calls. strategies (run (take n calls) ?s0) d = None" .
    then have "n \<le> length calls \<longrightarrow> strategies (run (take n calls) ?s0) d = None" by (rule spec)
    with n have "strategies (run (take n calls) ?s0) d = None" by (rule mp [rotated])
    with r show False by (rule notE)
  qed
  have "externalRegisteredStrategies ?s0 \<noteq> []"
  proof -
    from ne have "\<exists>d. d \<in> set (declaredIds extensions)" by (rule nonempty_mem)
    then obtain d where "d \<in> set (declaredIds extensions)" ..
    then have "d \<in> set (externalRegisteredStrategies ?s0)" unfolding new_service(3) .
    then show ?thesis by (rule mem_nonempty)
  qed
  then have "externalRegisteredStrategies ?s0 = [] \<longrightarrow> onReady ?s0"
    by (intro impI) (erule notE)
  from run_opens [OF this, of calls]
  have "externalRegisteredStrategies (run calls ?s0) = [] \<longrightarrow> onReady (run calls ?s0)" .
  then show ?thesis using empty by (rule mp)
qed


lemma run_undeclared:
  assumes "declaredIds extensions = []"
  shows "onReady (run calls (newClangdProjectService config extensions)) =
      (\<exists>n<length calls. \<exists>h. calls ! n = (h, Initialize) \<and>
         fst (ps_initialize h (run (take n calls) (newClangdProjectService config extensions))) =
           None)"
proof -
  from assms have "externalRegisteredStrategies (newClangdProjectService config extensions) = []"
    by (simp add: newClangdProjectService_def)
  from run_idle [OF this new_service(1), of calls] show ?thesis by (rule conjunct2)
qed

text \<open>
  Claim C2: a call of \<open>resolve\<close> returns no result before every strategy id that
  extensions declared has been registered; no resolution sees a partly registered set.
  If no id was declared, the gate is released when \<open>initialize()\<close> completes.

  As amended: \<open>resolve\<close> waits at \<open>await this.onReady\<close>, without any effect, exactly
  while the readiness gate is closed. The gate is a barrier that opens once. When ids
  were declared, it is open after a sequence of calls on a new service exactly when
  every declared id has been registered at least once, that is, has been a key of the
  registry at some point of the sequence; a strategy that is unregistered afterwards is
  not waited for again. When no id was declared, the gate is closed from the
  construction on and open exactly when a call of \<open>initialize()\<close> has completed
  without an error.
\<close>

theorem resolve_waits_for_declared_strategies:
  "(\<not> onReady s \<longrightarrow> ps_resolve host fileUri updateCurrent s = (Pending, s)) \<and>
   (onReady s \<longrightarrow> fst (ps_resolve host fileUri updateCurrent s) \<noteq> Pending) \<and>
   (declaredIds extensions \<noteq> [] \<longrightarrow>
      (fst (ps_resolve host fileUri updateCurrent
              (run calls (newClangdProjectService config extensions))) \<noteq> Pending) =
      (\<forall>d \<in> set (declaredIds extensions).
         \<exists>n\<le>length calls.
           strategies (run (take n calls) (newClangdProjectService config extensions)) d \<noteq> None)) \<and>
   (declaredIds extensions = [] \<longrightarrow>
      (fst (ps_resolve host fileUri updateCurrent
              (run calls (newClangdProjectService config extensions))) \<noteq> Pending) =
      (\<exists>n<length calls. \<exists>h.
         calls ! n = (h, Initialize) \<and>
         fst (ps_initialize h (run (take n calls) (newClangdProjectService config extensions))) =
           None))"
proof (intro conjI impI)
  assume "\<not> onReady s"
  then show "ps_resolve host fileUri updateCurrent s = (Pending, s)" by (rule ps_resolve_pending)
next
  assume "onReady s"
  then show "fst (ps_resolve host fileUri updateCurrent s) \<noteq> Pending" by (rule ps_resolve_ready)
next
  assume ne: "declaredIds extensions \<noteq> []"
  show "(fst (ps_resolve host fileUri updateCurrent
              (run calls (newClangdProjectService config extensions))) \<noteq> Pending) =
      (\<forall>d \<in> set (declaredIds extensions).
         \<exists>n\<le>length calls.
           strategies (run (take n calls) (newClangdProjectService config extensions)) d \<noteq> None)"
    unfolding ps_resolve_gate
  proof (rule iffI)
    assume ready: "onReady (run calls (newClangdProjectService config extensions))"
    show "\<forall>d \<in> set (declaredIds extensions).
         \<exists>n\<le>length calls.
           strategies (run (take n calls) (newClangdProjectService config extensions)) d \<noteq> None"
    proof (rule ballI)
      fix d assume "d \<in> set (declaredIds extensions)"
      with ready show "\<exists>n\<le>length calls.
           strategies (run (take n calls) (newClangdProjectService config extensions)) d \<noteq> None"
        by (rule run_declared_forward)
    qed
  next
    assume "\<forall>d \<in> set (declaredIds extensions).
         \<exists>n\<le>length calls.
           strategies (run (take n calls) (newClangdProjectService config extensions)) d \<noteq> None"
    with ne show "onReady (run calls (newClangdProjectService config extensions))"
      by (rule run_declared_backward)
  qed
next
  assume "declaredIds extensions = []"
  then show "(fst (ps_resolve host fileUri updateCurrent
              (run calls (newClangdProjectService config extensions))) \<noteq> Pending) =
      (\<exists>n<length calls. \<exists>h.
         calls ! n = (h, Initialize) \<and>
         fst (ps_initialize h (run (take n calls) (newClangdProjectService config extensions))) =
           None)"
    unfolding ps_resolve_gate by (rule run_undeclared)
qed

text \<open>The claim as stated fails: the ids \<open>x\<close> and \<open>y\<close> are declared; after
  \<open>initialize()\<close>, \<open>x\<close> is registered and unregistered again, then \<open>y\<close> is
  registered. That opens the gate: \<open>resolve\<close> returns the project of \<open>/a\<close> while the
  declared id \<open>x\<close> is not in the registry.\<close>

theorem resolve_after_unregister:
  "''x'' \<in> set (declaredIds [DeclaredArray [''x'', ''y'']]) \<and>
   (case fst (ps_resolve example_host ''file:///a/x.cpp'' False
                (run [(example_host, Initialize),
                      (example_host, Register (example_strategy ''x'')),
                      (example_host, Unregister (Inl ''x'')),
                      (example_host, Register (example_strategy ''y''))]
                   (newClangdProjectService example_config [DeclaredArray [''x'', ''y'']]))) of
      Returned r \<Rightarrow> map_option id' r = Some ''file:///a''
    | _ \<Rightarrow> False) \<and>
   strategies
     (run [(example_host, Initialize),
           (example_host, Register (example_strategy ''x'')),
           (example_host, Unregister (Inl ''x'')),
           (example_host, Register (example_strategy ''y''))]
        (newClangdProjectService example_config [DeclaredArray [''x'', ''y'']])) ''x'' = None"
  by code_simp

text \<open>The amended statement at work. With the declared id \<open>custom\<close>: \<open>resolve\<close>
  returns after \<open>initialize()\<close> and the registration of \<open>custom\<close>, and is pending
  after \<open>initialize()\<close> alone. With no declared id: \<open>resolve\<close> returns after
  \<open>initialize()\<close>.\<close>

theorem resolve_waits_for_declared_strategies_witness:
  "declaredIds [DeclaredString ''custom''] \<noteq> [] \<and>
   fst (ps_resolve example_host ''file:///a/x.cpp'' False
          (run [(example_host, Initialize), (example_host, Register (example_strategy ''custom''))]
             (newClangdProjectService example_config [DeclaredString ''custom'']))) \<noteq> Pending \<and>
   (\<exists>n\<le>2. strategies
             (run (take n [(example_host, Initialize),
                           (example_host, Register (example_strategy ''custom''))])
                (newClangdProjectService example_config [DeclaredString ''custom'']))
             ''custom'' \<noteq> None) \<and>
   ps_resolve example_host ''file:///a/x.cpp'' False
     (run [(example_host, Initialize)]
        (newClangdProjectService example_config [DeclaredString ''custom''])) =
     (Pending,
      run [(example_host, Initialize)]
        (newClangdProjectService example_config [DeclaredString ''custom''])) \<and>
   declaredIds [] = [] \<and>
   fst (ps_resolve example_host ''file:///a/x.cpp'' False
          (run [(example_host, Initialize)] (newClangdProjectService example_config []))) \<noteq> Pending"
proof -
  let ?calls = "[(example_host, Initialize), (example_host, Register (example_strategy ''custom''))]"
  let ?one = "[(example_host, Initialize)]"
  let ?s0 = "newClangdProjectService example_config [DeclaredString ''custom'']"
  let ?e0 = "newClangdProjectService example_config []"
  let ?u = "''file:///a/x.cpp''"
  have d1: "declaredIds [DeclaredString ''custom''] \<noteq> []" by (simp add: declaredIds_def)
  have d2: "''custom'' \<in> set (declaredIds [DeclaredString ''custom''])"
    by (simp add: declaredIds_def)
  have d3: "declaredIds [] = []" by (simp add: declaredIds_def)
  have h1: "fst (ps_resolve example_host ?u False (run ?calls ?s0)) \<noteq> Pending" by code_simp
  note declared = resolve_waits_for_declared_strategies
    [where host = example_host and fileUri = ?u and updateCurrent = False
       and extensions = "[DeclaredString ''custom'']" and calls = ?calls
       and config = example_config, THEN conjunct2, THEN conjunct2, THEN conjunct1, THEN mp, OF d1]
  from iffD1 [OF declared h1] d2
  have "\<exists>n\<le>length ?calls. strategies (run (take n ?calls) ?s0) ''custom'' \<noteq> None"
    by (rule bspec)
  then have a: "\<exists>n\<le>2. strategies (run (take n ?calls) ?s0) ''custom'' \<noteq> None"
    by (simp add: numeral_2_eq_2)
  have n1: "\<not> onReady (run ?one ?s0)" by code_simp
  note pending = resolve_waits_for_declared_strategies
    [where s = "run ?one ?s0" and host = example_host and fileUri = ?u and updateCurrent = False,
     THEN conjunct1, THEN mp, OF n1]
  have i: "fst (ps_initialize example_host (run (take 0 ?one) ?e0)) = None" by code_simp
  have "0 < length ?one \<and> (\<exists>h. ?one ! 0 = (h, Initialize) \<and>
          fst (ps_initialize h (run (take 0 ?one) ?e0)) = None)"
    using i by (intro conjI exI [of _ example_host]) simp_all
  then have ex: "\<exists>n<length ?one. \<exists>h. ?one ! n = (h, Initialize) \<and>
          fst (ps_initialize h (run (take n ?one) ?e0)) = None"
    by (rule exI [of _ 0])
  note undeclared = resolve_waits_for_declared_strategies
    [where host = example_host and fileUri = ?u and updateCurrent = False
       and extensions = "[]" and calls = ?one
       and config = example_config, THEN conjunct2, THEN conjunct2, THEN conjunct2, THEN mp, OF d3]
  from iffD2 [OF undeclared ex]
  have e: "fst (ps_resolve example_host ?u False (run ?one ?e0)) \<noteq> Pending" .
  from d1 h1 a pending d3 e show ?thesis by (intro conjI)
qed

text \<open>
  Claim C8: \<open>registerStrategy(s)\<close> with an id that is already registered returns
  \<open>false\<close> without throwing, reports the problem to the log and leaves the registry
  mapping the id to the instance registered before; otherwise it stores \<open>s\<close>, returns
  \<open>true\<close> and, if the id of \<open>s\<close> was the last pending declared id, releases the
  readiness gate.

  For a reference \<open>a\<close> to a strategy object: in the first case the result is
  \<open>false\<close> and the state changes by one line on the console only; in the second the
  result is \<open>true\<close>, the registry maps the id to \<open>a\<close>, and the gate is open when
  the id was the only pending one.
\<close>

theorem registerStrategy_duplicate_or_new:
  assumes "heap s a = Some strategy"
  shows "(strategies s (strategy_id strategy) \<noteq> None \<longrightarrow>
            registerStrategy a s =
              (Inr False,
               s\<lparr>console := console s @
                   [''Could not register project resolution strategy. '' @
                    ''Another registry with the same id is already registered!'']\<rparr>)) \<and>
         (strategies s (strategy_id strategy) = None \<longrightarrow>
            fst (registerStrategy a s) = Inr True \<and>
            strategies (snd (registerStrategy a s)) = (strategies s)(strategy_id strategy \<mapsto> a) \<and>
            (set (externalRegisteredStrategies s) = {strategy_id strategy} \<longrightarrow>
               onReady (snd (registerStrategy a s))))"
proof (intro conjI impI)
  assume "strategies s (strategy_id strategy) \<noteq> None"
  then obtain old where "strategies s (strategy_id strategy) = Some old" by blast
  with assms show "registerStrategy a s =
              (Inr False,
               s\<lparr>console := console s @
                   [''Could not register project resolution strategy. '' @
                    ''Another registry with the same id is already registered!'']\<rparr>)"
    by (simp add: registerStrategy_def)
next
  assume "strategies s (strategy_id strategy) = None"
  with assms show "fst (registerStrategy a s) = Inr True"
    by (simp add: registerStrategy_def Let_def)
next
  assume "strategies s (strategy_id strategy) = None"
  with assms show "strategies (snd (registerStrategy a s)) = (strategies s)(strategy_id strategy \<mapsto> a)"
    by (simp add: registerStrategy_def Let_def resolveReady_def)
next
  assume n: "strategies s (strategy_id strategy) = None"
    and l: "set (externalRegisteredStrategies s) = {strategy_id strategy}"
  from l have ne: "externalRegisteredStrategies s \<noteq> []" by (rule singleton_nonempty)
  from l have "set (externalRegisteredStrategies s) \<subseteq> {strategy_id strategy}" by simp
  then have em: "removeAll (strategy_id strategy) (externalRegisteredStrategies s) = []"
    by (rule removeAll_only)
  show "onReady (snd (registerStrategy a s))"
    using assms n ne em by (simp add: registerStrategy_def Let_def resolveReady_def set_delete_def)
qed

text \<open>The theorem at work: registering the folder-based strategy of the example
  service a second time, and registering the one strategy that an extension has
  declared.\<close>

theorem registerStrategy_duplicate_or_new_witness:
  "fst (registerStrategy 0 example_service) = Inr False \<and>
   console (snd (registerStrategy 0 example_service)) =
     [''Could not register project resolution strategy. '' @
      ''Another registry with the same id is already registered!''] \<and>
   strategies (snd (registerStrategy 0 example_service)) ''workspaceFolders'' = Some 0 \<and>
   fst (registerStrategy 0
          (snd (new (External \<lparr>ext_id = ''custom'', ext_projects = [],
                                ext_resolve = (\<lambda>u. None), ext_initialized = 0\<rparr>)
                  (newClangdProjectService example_config [DeclaredString ''custom''])))) = Inr True \<and>
   onReady (snd (registerStrategy 0
          (snd (new (External \<lparr>ext_id = ''custom'', ext_projects = [],
                                ext_resolve = (\<lambda>u. None), ext_initialized = 0\<rparr>)
                  (newClangdProjectService example_config [DeclaredString ''custom''])))))"
proof -
  have "heap example_service 0 \<noteq> None" by code_simp
  then obtain st where st: "heap example_service 0 = Some st" by blast
  have "map_option strategy_id (heap example_service 0) = Some ''workspaceFolders''" by code_simp
  with st have i: "strategy_id st = ''workspaceFolders''" by simp
  have k: "strategies example_service ''workspaceFolders'' = Some 0" by code_simp
  have c: "console example_service = []" by code_simp
  have first: "registerStrategy 0 example_service =
      (Inr False,
       example_service\<lparr>console := console example_service @
           [''Could not register project resolution strategy. '' @
            ''Another registry with the same id is already registered!'']\<rparr>)"
    using registerStrategy_duplicate_or_new [OF st] i k by simp
  let ?e = "External \<lparr>ext_id = ''custom'', ext_projects = [],
                        ext_resolve = (\<lambda>u. None), ext_initialized = 0\<rparr>"
  let ?s = "snd (new ?e (newClangdProjectService example_config [DeclaredString ''custom'']))"
  have h: "heap ?s 0 = Some ?e" by (simp add: new_def newClangdProjectService_def)
  have n: "strategies ?s (strategy_id ?e) = None"
    by (simp add: new_def newClangdProjectService_def)
  have l: "set (externalRegisteredStrategies ?s) = {strategy_id ?e}"
    by (simp add: new_def newClangdProjectService_def declaredIds_def set_add_def)
  from registerStrategy_duplicate_or_new [OF h] n l
  have second: "fst (registerStrategy 0 ?s) = Inr True \<and> onReady (snd (registerStrategy 0 ?s))"
    by blast
  from first second k c show ?thesis by simp
qed

section \<open>The Routing Context: clients\<close>

text \<open>\<open>createClient\<close> always builds and starts a new client and puts it into the
  registry under the project's key; it disposes nothing. So does \<open>didOpenTextDocument\<close>
  for a document that resolves to a project.\<close>

lemma createClient_new_client:
  "map_option client_ref (clients (snd (createClient project ctx)) (projectKey project)) =
     Some (nextClient ctx) \<and>
   started (snd (createClient project ctx)) = started ctx @ [nextClient ctx] \<and>
   disposed (snd (createClient project ctx)) = disposed ctx"
  by (simp add: createClient_def getClientOptions_def getOutputChannel_def createNewClient_def
        Let_def split_def split: option.splits)

lemma didOpen_resolved_creates_client:
  assumes "isClangdDocument document"
    and "ps_resolve host (doc_uri document) True (projectService ctx) =
           (Returned (Some project), service)"
  shows "map_option client_ref
           (clients (snd (didOpenTextDocument host document ctx)) (id' project)) =
           Some (nextClient ctx) \<and>
         started (snd (didOpenTextDocument host document ctx)) = started ctx @ [nextClient ctx] \<and>
         disposed (snd (didOpenTextDocument host document ctx)) = disposed ctx"
  using assms createClient_new_client [of "Some project" "ctx\<lparr>projectService := service\<rparr>"]
  by (simp add: didOpenTextDocument_def projectKey_def)

text \<open>
  Claim C1: after an open event of a clangd document that resolves to the project
  \<open>P\<close>, exactly one live client is registered under the id of \<open>P\<close>, and a client
  is created only if there was none for \<open>P\<close>: a client already present is reused,
  neither replaced nor disposed.

  In the example workspace the documents \<open>/a/x.cpp\<close> and \<open>/a/y.cpp\<close> are opened one
  after the other; both resolve to the project \<open>file:///a\<close>. The first event
  registers the client 0 for it. The second event does not reuse it: it builds and
  starts the client 1 and registers it in place of the client 0, which is not disposed
  and stays live outside the registry.
\<close>

theorem didOpen_second_document_new_client:
  "map_option (map_option id')
     (case fst (ps_resolve example_host (doc_uri doc_y) True
                  (projectService (snd (didOpenTextDocument example_host doc_x example_context)))) of
        Returned r \<Rightarrow> Some r | _ \<Rightarrow> None) = Some (Some ''file:///a'') \<and>
   map_option client_ref
     (clients (snd (didOpenTextDocument example_host doc_x example_context)) ''file:///a'') = Some 0 \<and>
   map_option client_ref
     (clients (snd (didOpenTextDocument example_host doc_y
                      (snd (didOpenTextDocument example_host doc_x example_context))))
        ''file:///a'') = Some 1 \<and>
   started (snd (didOpenTextDocument example_host doc_y
                   (snd (didOpenTextDocument example_host doc_x example_context)))) = [0, 1] \<and>
   disposed (snd (didOpenTextDocument example_host doc_y
                   (snd (didOpenTextDocument example_host doc_x example_context)))) = []"
  by code_simp

text \<open>
  Claim C7: whenever the context disposes an entry of the client registry, the client
  is disposed before the entry is removed; there is no intermediate state in which the
  entry is removed and its client not yet disposed.

  As amended: \<open>disposeClient\<close> on an id with a client first removes the entry from
  the registry and then, in the same synchronous call, calls \<open>dispose()\<close> on the
  client. It passes through exactly one intermediate state, in which the entry is
  removed and \<open>disposeClient\<close> has not yet called \<open>dispose()\<close>: there the client is
  disposed only if it had been disposed before the call, and a client that was not
  disposed before is not disposed there. When \<open>disposeClient\<close> returns, the entry is
  removed and the client disposed.
\<close>

theorem disposeClient_order:
  assumes "clients ctx i = Some c"
  shows "disposeClient_steps i ctx =
           [ctx\<lparr>clients := (clients ctx)(i := None)\<rparr>,
            ctx\<lparr>clients := (clients ctx)(i := None), disposed := disposed ctx @ [client_ref c]\<rparr>] \<and>
         disposeClient i ctx =
           ctx\<lparr>clients := (clients ctx)(i := None), disposed := disposed ctx @ [client_ref c]\<rparr> \<and>
         clients (hd (disposeClient_steps i ctx)) i = None \<and>
         disposed (hd (disposeClient_steps i ctx)) = disposed ctx \<and>
         (client_ref c \<in> set (disposed (hd (disposeClient_steps i ctx)))) =
           (client_ref c \<in> set (disposed ctx)) \<and>
         (client_ref c \<notin> set (disposed ctx) \<longrightarrow>
            client_ref c \<notin> set (disposed (hd (disposeClient_steps i ctx)))) \<and>
         clients (disposeClient i ctx) i = None \<and>
         client_ref c \<in> set (disposed (disposeClient i ctx))"
  using assms by (simp add: disposeClient_steps_def disposeClient_def Let_def)

text \<open>The claim as stated fails: after the document \<open>/a/x.cpp\<close> has been opened,
  the client 0 is registered for \<open>file:///a\<close>; in the first state that
  \<open>disposeClient\<close> passes through, the entry is gone and the client 0 is not
  disposed.\<close>

theorem disposeClient_removes_first:
  "map_option client_ref
     (clients (snd (didOpenTextDocument example_host doc_x example_context)) ''file:///a'') = Some 0 \<and>
   clients (hd (disposeClient_steps ''file:///a''
      (snd (didOpenTextDocument example_host doc_x example_context)))) ''file:///a'' = None \<and>
   0 \<notin> set (disposed (hd (disposeClient_steps ''file:///a''
      (snd (didOpenTextDocument example_host doc_x example_context)))))"
  by code_simp

text \<open>The amended statement at work on that context, where the client 0 has not been
  disposed before the call.\<close>

theorem disposeClient_order_witness:
  "clients (snd (didOpenTextDocument example_host doc_x example_context)) ''file:///a'' \<noteq> None \<and>
   0 \<notin> set (disposed (snd (didOpenTextDocument example_host doc_x example_context))) \<and>
   map (\<lambda>s. (map_option client_ref (clients s ''file:///a''), disposed s))
     (disposeClient_steps ''file:///a''
        (snd (didOpenTextDocument example_host doc_x example_context))) =
     [(None, []), (None, [0])] \<and>
   0 \<notin> set (disposed (hd (disposeClient_steps ''file:///a''
      (snd (didOpenTextDocument example_host doc_x example_context))))) \<and>
   0 \<in> set (disposed (disposeClient ''file:///a''
      (snd (didOpenTextDocument example_host doc_x example_context))))"
proof -
  let ?ctx = "snd (didOpenTextDocument example_host doc_x example_context)"
  have h: "clients ?ctx ''file:///a'' \<noteq> None" by code_simp
  then obtain c where c: "clients ?ctx ''file:///a'' = Some c" by blast
  have "map_option client_ref (clients ?ctx ''file:///a'') = Some 0" by code_simp
  with c have r: "client_ref c = 0" by simp
  have d: "disposed ?ctx = []" by code_simp
  from disposeClient_order [OF c] h r d show ?thesis by simp
qed

text \<open>The other case of the amended statement: the listener of the project changes has
  disposed the client 0 of the pinned project and left its entry in the registry.
  \<open>disposeClient\<close> on that entry passes through a state in which the client is
  already disposed, and calls \<open>dispose()\<close> on it a second time.\<close>

lemma disposeClient_after_listener:
  "(let p = \<lparr>ref = 2, id' = ''file:///a'', label = Some ''a'', uri = ''file:///a''\<rparr>;
        ctx = onProjectsChanged \<lparr>added = None, removed = Some [p], updated = None\<rparr>
                (set_activeProjectOverride (Some p) example_context)
    in map_option client_ref (clients ctx ''file:///a'') = Some 0 \<and>
       disposed ctx = [0] \<and>
       map (\<lambda>s. (map_option client_ref (clients s ''file:///a''), disposed s))
         (disposeClient_steps ''file:///a'' ctx) = [(None, [0]), (None, [0, 0])])"
  by code_simp

section \<open>The Routing Context: the active project override\<close>

text \<open>When the list of removed projects holds the very object that is pinned, the
  listener clears the override and disposes the client, which stays in the
  registry.\<close>

lemma onProjectsChanged_same_object:
  assumes "activeProjectOverride ctx = Some p"
    and "optIncludes (removed change) p"
    and "clients ctx (id' p) = Some c"
  shows "activeProjectOverride (onProjectsChanged change ctx) = None \<and>
         disposed (onProjectsChanged change ctx) = disposed ctx @ [client_ref c] \<and>
         clients (onProjectsChanged change ctx) = clients ctx"
  using assms by (simp add: onProjectsChanged_def disposeRegistered_def)

text \<open>When neither list holds the pinned object itself, the listener does
  nothing.\<close>

lemma onProjectsChanged_other_objects:
  assumes "activeProjectOverride ctx = Some p"
    and "\<not> optIncludes (removed change) p"
    and "\<not> optIncludes (updated change) p"
  shows "onProjectsChanged change ctx = ctx"
  using assms by (simp add: onProjectsChanged_def)

text \<open>
  Claim C3: if a project is pinned as the active project override and a
  \<open>ProjectsChange\<close> event arrives whose removed list contains that project (the same
  id, even when the entry is a distinct, newly constructed \<open>Project\<close> value), the
  override is cleared and its client is disposed, and nothing is thrown.

  In the example workspace the project of \<open>/a\<close> is pinned, which registers the client
  0 for it. The event removes a \<open>Project\<close> with the same id, label and location that
  is another object. The listener does nothing: \<open>includes\<close> compares objects, the
  override stays pinned and no client is disposed.
\<close>

theorem onProjectsChanged_fresh_object_ignored:
  "(let p = \<lparr>ref = 2, id' = ''file:///a'', label = Some ''a'', uri = ''file:///a''\<rparr>;
        ctx = set_activeProjectOverride (Some p) example_context;
        ctx' = onProjectsChanged
                 \<lparr>added = None, removed = Some [p\<lparr>ref := 3\<rparr>], updated = None\<rparr> ctx
    in map_option strategy_projects (heap example_service 0) = Some [p] \<and>
       activeProjectOverride ctx = Some p \<and>
       map_option client_ref (clients ctx ''file:///a'') = Some 0 \<and>
       activeProjectOverride ctx' = Some p \<and>
       disposed ctx' = [])"
  by code_simp

section \<open>The Routing Context: unmatched documents on close\<close>

text \<open>
  Claim C9: for a close event of a clangd document that resolves to no project, the
  list of unmatched documents is left unchanged: the guard of the removal branch,
  \<open>index < -1\<close>, is false for every value \<open>indexOf\<close> returns, so the branch that
  splices the list is never taken.
\<close>

theorem didClose_unmatched_unchanged:
  assumes "isClangdDocument document"
    and "fst (ps_resolve host (doc_uri document) False (projectService ctx)) = Returned None"
  shows "(\<forall>documents d. \<not> indexOf sameDocument documents d < -1) \<and>
         unmatchedDocuments (snd (didCloseTextDocument host textDocuments document ctx)) =
           unmatchedDocuments ctx"
proof -
  obtain service where r:
    "ps_resolve host (doc_uri document) False (projectService ctx) = (Returned None, service)"
    using assms(2) by (cases "ps_resolve host (doc_uri document) False (projectService ctx)") simp
  have g: "\<not> indexOf sameDocument documents d < -1" for documents d
    by (rule indexOf_lower)
  then show ?thesis
    using assms(1) r by (simp add: didCloseTextDocument_def Let_def)
qed

text \<open>The theorem at work: the document \<open>/b/z.c\<close>, outside every folder, is opened
  and recorded as unmatched; closing it leaves it in the list.\<close>

theorem didClose_unmatched_unchanged_witness:
  "isClangdDocument doc_out \<and>
   fst (ps_resolve example_host (doc_uri doc_out) False
          (projectService (snd (didOpenTextDocument example_host doc_out example_context)))) =
     Returned None \<and>
   unmatchedDocuments
     (snd (didCloseTextDocument example_host [] doc_out
             (snd (didOpenTextDocument example_host doc_out example_context)))) = [doc_out]"
proof -
  let ?ctx = "snd (didOpenTextDocument example_host doc_out example_context)"
  have h1: "isClangdDocument doc_out" by code_simp
  have h2: "fst (ps_resolve example_host (doc_uri doc_out) False (projectService ?ctx)) =
              Returned None" by code_simp
  have u: "unmatchedDocuments ?ctx = [doc_out]" by code_simp
  from didClose_unmatched_unchanged [OF h1 h2, of "[]"] h1 h2 u show ?thesis by simp
qed

end
